theory Spec2Isabelle
  imports Complex_Main "HOL-Library.Log_Nat"
begin

section \<open>Data model of the game screen\<close>

text \<open>
  The game screen keeps a registry of fingers, a colour map, a selecting flag and a winner
  index (React state), the measured game area (a ref), and a number of pending platform
  timers. Coordinates, times and animation values are reals, and the arithmetic on them is
  exact; the one product whose rounding decides an outcome, the random draw times the number
  of contacts, is rounded to a double as the platform does (section on the random draw
  below). A touch identifier is an integer.
  The \<open>Animated.Value\<close> fields of a finger hold the value the object was constructed
  with: the animation driver, which moves them in real time, is outside this model.
\<close>

record dot =
  angle :: real
  distance :: real
  opacity :: real

record Finger =
  finger_id :: string
  finger_x :: real
  finger_y :: real
  color :: real
  scale :: real
  rotation :: real
  active :: bool
  dots :: "dot list"

record touch =
  touch_identifier :: int
  pageX :: real
  pageY :: real

record area =
  areaX :: real
  areaY :: real
  width :: real
  height :: real
  bottom :: real

datatype cue = TapSound | WinnerSound

text \<open>
  A timer callback is a closure. \<open>CycleTick\<close> captures the snapshot \<open>activeFingers\<close> and
  owns the mutable \<open>currentIndex\<close>; \<open>Outcome\<close> captures the snapshot and the id of the
  cycling interval; \<open>BlinkTick\<close> captures the winner and owns \<open>blinkCount\<close>;
  \<open>SessionEnd\<close> captures nothing.
\<close>

datatype callback =
    CycleTick "Finger list" nat
  | Outcome "Finger list" nat
  | BlinkTick Finger nat
  | SessionEnd

record timer =
  timerId :: nat
  due :: nat
  repeat :: "nat option"
  callback :: callback

text \<open>
  The platform decides which of two timers due at the same instant runs first. Pending
  timers are kept in a list and the first one with the least due time runs. Under
  \<open>CreationOrder\<close> a repeating timer keeps its place in the list when it is rescheduled;
  under \<open>RequestOrder\<close> it moves to the end.
\<close>

datatype tie_break = CreationOrder | RequestOrder

record game_state =
  fingers :: "Finger list"
  selecting :: bool
  winnerIndex :: "int option"
  fingerColors :: "string \<rightharpoonup> string"
  gameAreaDimensions :: area
  cues :: "cue list"
  now :: nat
  timers :: "timer list"
  nextTimerId :: nat
  scheduler :: tie_break

definition idle_color :: string where
  "idle_color = ''#00a2ff''"

definition highlight_color :: string where
  "highlight_color = ''#ff9500''"

definition winner_color :: string where
  "winner_color = ''#ff2d55''"

definition winner_blink_color :: string where
  "winner_blink_color = ''#ff0055''"

definition initial_state :: "tie_break \<Rightarrow> game_state" where
  "initial_state pol =
     \<lparr>fingers = [], selecting = False, winnerIndex = None, fingerColors = Map.empty,
      gameAreaDimensions = \<lparr>areaX = 0, areaY = 0, width = 0, height = 0, bottom = 0\<rparr>,
      cues = [], now = 0, timers = [], nextTimerId = 0, scheduler = pol\<rparr>"

section \<open>Sound cues\<close>

text \<open>
  A cue is recorded when \<open>playTapSound\<close> or \<open>playWinnerSound\<close> is called; whether
  the sound was loaded and can be heard is left to the audio library.
\<close>

definition playTapSound :: "game_state \<Rightarrow> game_state" where
  "playTapSound w = w\<lparr>cues := cues w @ [TapSound]\<rparr>"

definition playWinnerSound :: "game_state \<Rightarrow> game_state" where
  "playWinnerSound w = w\<lparr>cues := cues w @ [WinnerSound]\<rparr>"

section \<open>Decorative dots\<close>

definition numDots :: nat where
  "numDots = 8"

text \<open>\<open>Math.PI\<close> is the double nearest to \<open>\<pi>\<close>, which is this rational number.\<close>

definition Math_PI :: real where
  "Math_PI = 884279719003555 / 281474976710656"

definition new_dot :: "nat \<Rightarrow> dot" where
  "new_dot i =
     \<lparr>angle = (real i * 2 * Math_PI) / real numDots, distance = 95, opacity = 0.5\<rparr>"

function generateDots_loop :: "nat \<Rightarrow> dot list \<Rightarrow> dot list" where
  "generateDots_loop i ds =
     (if i < numDots then generateDots_loop (i + 1) (ds @ [new_dot i]) else ds)"
  by pat_completeness auto
termination
  by (relation "measure (\<lambda>(i, ds). numDots - i)") auto

declare generateDots_loop.simps [simp del]

definition generateDots :: "dot list" where
  "generateDots = generateDots_loop 0 []"

section \<open>Gesture mapper\<close>

text \<open>The template literal \<open>`${touch.identifier}`\<close>: the decimal rendering of an integer.\<close>

definition digit_char :: "nat \<Rightarrow> char" where
  "digit_char d = ''0123456789'' ! d"

function string_of_nat :: "nat \<Rightarrow> string" where
  "string_of_nat n =
     (if n < 10 then [digit_char n] else string_of_nat (n div 10) @ [digit_char (n mod 10)])"
  by pat_completeness auto
termination
  by (relation "measure (\<lambda>n. n)") auto

declare string_of_nat.simps [simp del]

definition template_literal :: "int \<Rightarrow> string" where
  "template_literal i =
     (if i < 0 then CHR ''-'' # string_of_nat (nat (- i)) else string_of_nat (nat i))"

text \<open>Reading a decimal rendering back; used to show that different integers get different keys.\<close>

definition digit_value :: "char \<Rightarrow> nat" where
  "digit_value c = length (takeWhile (\<lambda>d. d \<noteq> c) ''0123456789'')"

definition nat_of_string :: "string \<Rightarrow> nat" where
  "nat_of_string s = foldl (\<lambda>a c. 10 * a + digit_value c) 0 s"

definition measureGameArea :: "real \<Rightarrow> real \<Rightarrow> real \<Rightarrow> real \<Rightarrow> game_state \<Rightarrow> game_state" where
  "measureGameArea px py wd ht w =
     w\<lparr>gameAreaDimensions :=
          \<lparr>areaX = px, areaY = py, width = wd, height = ht, bottom = py + ht\<rparr>\<rparr>"

definition isTouchInGameArea :: "area \<Rightarrow> real \<Rightarrow> real \<Rightarrow> bool" where
  "isTouchInGameArea a px py =
     (let buttonAreaTop = bottom a - 70
      in px \<ge> areaX a \<and> px \<le> areaX a + width a \<and> py \<ge> areaY a \<and> py \<le> bottom a
         \<and> py < buttonAreaTop)"

text \<open>
  The two predicates by which the view asks to become the responder; they read the first
  touch of the event, which is \<open>undefined\<close> (here \<open>None\<close>) when there is none. The
  events below call the handlers directly, whether or not the view was granted.
\<close>

definition onStartShouldSetPanResponder :: "touch list \<Rightarrow> game_state \<Rightarrow> bool option" where
  "onStartShouldSetPanResponder touches w =
     (case touches of
        [] \<Rightarrow> None
      | t # _ \<Rightarrow>
          Some (pageY t \<ge> areaY (gameAreaDimensions w)
                \<and> pageY t \<le> bottom (gameAreaDimensions w) - 80))"

definition onMoveShouldSetPanResponder :: "touch list \<Rightarrow> game_state \<Rightarrow> bool option" where
  "onMoveShouldSetPanResponder touches w =
     (case touches of
        [] \<Rightarrow> None
      | t # _ \<Rightarrow> Some (isTouchInGameArea (gameAreaDimensions w) (pageX t) (pageY t)))"

definition valid_touch :: "game_state \<Rightarrow> touch \<Rightarrow> bool" where
  "valid_touch w t = isTouchInGameArea (gameAreaDimensions w) (pageX t) (pageY t)"

definition touch_key :: "touch \<Rightarrow> string" where
  "touch_key t = template_literal (touch_identifier t)"

definition new_finger :: "touch \<Rightarrow> Finger" where
  "new_finger t =
     \<lparr>finger_id = touch_key t, finger_x = pageX t, finger_y = pageY t, color = 0, scale = 1,
      rotation = 0, active = True, dots = generateDots\<rparr>"

definition set_idle :: "touch \<Rightarrow> game_state \<Rightarrow> game_state" where
  "set_idle t w = w\<lparr>fingerColors := (fingerColors w)(touch_key t \<mapsto> idle_color)\<rparr>"

definition onPanResponderGrant :: "touch list \<Rightarrow> game_state \<Rightarrow> game_state" where
  "onPanResponderGrant touches w =
     (if selecting w then w
      else
        let validTouches = filter (valid_touch w) touches;
            w1 = (if length validTouches > 0 then playTapSound w else w);
            w2 = fold set_idle validTouches w1;
            currentTouches = map new_finger validTouches;
            touchIds = map finger_id currentTouches;
            remainingFingers =
              filter (\<lambda>f. finger_id f \<notin> set touchIds \<and> active f) (fingers w2)
        in w2\<lparr>fingers := remainingFingers @ currentTouches\<rparr>)"

definition move_finger :: "game_state \<Rightarrow> touch list \<Rightarrow> Finger \<Rightarrow> Finger" where
  "move_finger w touches finger =
     (case find (\<lambda>t. touch_key t = finger_id finger) touches of
        Some matchingTouch \<Rightarrow>
          if valid_touch w matchingTouch
          then finger\<lparr>finger_x := pageX matchingTouch, finger_y := pageY matchingTouch\<rparr>
          else finger
      | None \<Rightarrow> finger)"

definition onPanResponderMove :: "touch list \<Rightarrow> game_state \<Rightarrow> game_state" where
  "onPanResponderMove touches w =
     (if \<not> selecting w then w\<lparr>fingers := map (move_finger w touches) (fingers w)\<rparr> else w)"

section \<open>Controls\<close>

definition handleRestart :: "game_state \<Rightarrow> game_state" where
  "handleRestart w =
     w\<lparr>fingers := [], selecting := False, winnerIndex := None, fingerColors := Map.empty\<rparr>"

definition pick_disabled :: "game_state \<Rightarrow> bool" where
  "pick_disabled w = (length (filter active (fingers w)) = 0 \<or> selecting w)"

section \<open>Visual state\<close>

definition is_winner_colored :: "game_state \<Rightarrow> string \<Rightarrow> bool" where
  "is_winner_colored w fingerId =
     (fingerColors w fingerId = Some winner_color
      \<or> fingerColors w fingerId = Some winner_blink_color)"

definition getBorderColor :: "game_state \<Rightarrow> string \<Rightarrow> string" where
  "getBorderColor w fingerId = (if is_winner_colored w fingerId then ''#ffcc00'' else ''white'')"

definition getBorderWidth :: "game_state \<Rightarrow> string \<Rightarrow> nat" where
  "getBorderWidth w fingerId = (if is_winner_colored w fingerId then 6 else 4)"

definition backgroundColor :: "game_state \<Rightarrow> string \<Rightarrow> string" where
  "backgroundColor w fingerId =
     (case fingerColors w fingerId of
        None \<Rightarrow> idle_color
      | Some c \<Rightarrow> if c = [] then idle_color else c)"

section \<open>Platform timers\<close>

text \<open>
  \<open>setInterval\<close> and \<open>setTimeout\<close> register a pending timer and return its id;
  \<open>clearInterval\<close> removes the timer with the given id, if there is one.
\<close>

definition setInterval :: "callback \<Rightarrow> nat \<Rightarrow> game_state \<Rightarrow> nat \<times> game_state" where
  "setInterval cb delay w =
     (nextTimerId w,
      w\<lparr>timers := timers w @
            [\<lparr>timerId = nextTimerId w, due = now w + delay, repeat = Some delay, callback = cb\<rparr>],
        nextTimerId := nextTimerId w + 1\<rparr>)"

definition setTimeout :: "callback \<Rightarrow> nat \<Rightarrow> game_state \<Rightarrow> nat \<times> game_state" where
  "setTimeout cb delay w =
     (nextTimerId w,
      w\<lparr>timers := timers w @
            [\<lparr>timerId = nextTimerId w, due = now w + delay, repeat = None, callback = cb\<rparr>],
        nextTimerId := nextTimerId w + 1\<rparr>)"

definition clearInterval :: "nat \<Rightarrow> game_state \<Rightarrow> game_state" where
  "clearInterval i w = w\<lparr>timers := filter (\<lambda>t. timerId t \<noteq> i) (timers w)\<rparr>"

fun earliest :: "timer list \<Rightarrow> timer option" where
  "earliest [] = None"
| "earliest (t # ts) =
     (case earliest ts of
        None \<Rightarrow> Some t
      | Some u \<Rightarrow> if due t \<le> due u then Some t else Some u)"

definition reschedule :: "tie_break \<Rightarrow> nat \<Rightarrow> nat \<Rightarrow> callback \<Rightarrow> timer list \<Rightarrow> timer list" where
  "reschedule pol i d cb ts =
     (case find (\<lambda>t. timerId t = i) ts of
        None \<Rightarrow> ts
      | Some t \<Rightarrow>
          (case pol of
             CreationOrder \<Rightarrow>
               map (\<lambda>u. if timerId u = i then u\<lparr>due := d, callback := cb\<rparr> else u) ts
           | RequestOrder \<Rightarrow>
               filter (\<lambda>u. timerId u \<noteq> i) ts @ [t\<lparr>due := d, callback := cb\<rparr>]))"

section \<open>Selection sequencer\<close>

definition selectionSpeed :: nat where
  "selectionSpeed = 200"

definition numberOfCycles :: nat where
  "numberOfCycles = 3"

text \<open>
  The \<open>forEach\<close> loops of \<open>updateFingerColors\<close> and of the outcome callback build
  \<open>updatedColors\<close> the same way: the entry at index \<open>hot\<close> gets the colour \<open>c\<close>, every
  other entry the idle colour; a later entry with the same id overwrites an earlier one.
\<close>

definition paint_entry :: "string \<Rightarrow> int \<Rightarrow> nat \<times> Finger \<Rightarrow> (string \<rightharpoonup> string) \<Rightarrow> (string \<rightharpoonup> string)" where
  "paint_entry c hot p m =
     m(finger_id (snd p) \<mapsto> (if int (fst p) = hot then c else idle_color))"

definition paint :: "string \<Rightarrow> int \<Rightarrow> Finger list \<Rightarrow> (string \<rightharpoonup> string)" where
  "paint c hot activeFingers = fold (paint_entry c hot) (enumerate 0 activeFingers) Map.empty"

definition updateFingerColors :: "Finger list \<Rightarrow> nat \<Rightarrow> game_state \<Rightarrow> game_state" where
  "updateFingerColors activeFingers currentIndex w =
     (let updatedColors = paint highlight_color (int currentIndex) activeFingers
      in w\<lparr>fingerColors := fingerColors w ++ updatedColors\<rparr>)"

subsection \<open>The random draw\<close>

text \<open>
  JavaScript numbers are IEEE 754 doubles: 53 significant bits, round to nearest with ties
  to even. \<open>exponent x\<close> is the binary exponent of a nonzero \<open>x\<close> (the \<open>e\<close> with
  \<open>2 ^ e \<le> |x| < 2 ^ (e + 1)\<close>), \<open>ulp x\<close> the spacing of the doubles around \<open>x\<close>
  (the exponent stops at \<open>- 1022\<close>, where the subnormal doubles begin), and
  \<open>round_double x\<close> the double nearest to \<open>x\<close>. Overflow to infinity is left out: no
  number here comes near \<open>2 ^ 1024\<close>.
\<close>

definition exponent :: "real \<Rightarrow> int" where
  "exponent x =
     (if 1 \<le> \<bar>x\<bar> then bitlen \<lfloor>\<bar>x\<bar>\<rfloor> - 1 else - bitlen (\<lceil>1 / \<bar>x\<bar>\<rceil> - 1))"

definition ulp :: "real \<Rightarrow> real" where
  "ulp x = 2 powi (max (exponent x) (- 1022) - 52)"

definition round_half_even :: "real \<Rightarrow> int" where
  "round_half_even q =
     (let f = \<lfloor>q\<rfloor>; d = q - of_int f
      in if d < 1 / 2 then f else if 1 / 2 < d then f + 1 else if even f then f else f + 1)"

definition round_toward_zero :: "real \<Rightarrow> int" where
  "round_toward_zero q = (if 0 \<le> q then \<lfloor>q\<rfloor> else \<lceil>q\<rceil>)"

definition round_double :: "real \<Rightarrow> real" where
  "round_double x = (if x = 0 then 0 else of_int (round_half_even (x / ulp x)) * ulp x)"

text \<open>
  \<open>Math.random()\<close> returns a double that is at least 0 and less than 1. The draw is a
  parameter \<open>r\<close> of the model, and \<open>Math_random r\<close> is the double the call returns: the
  greatest double that is not above \<open>r\<close>. Every double from 0 up to 1 is returned for
  some \<open>r\<close>, namely for itself.
\<close>

definition truncate_double :: "real \<Rightarrow> real" where
  "truncate_double x = (if x = 0 then 0 else of_int (round_toward_zero (x / ulp x)) * ulp x)"

definition Math_random :: "real \<Rightarrow> real" where
  "Math_random r = truncate_double r"

text \<open>The product of two doubles is the exact product, rounded.\<close>

definition double_mul :: "real \<Rightarrow> real \<Rightarrow> real" where
  "double_mul a b = round_double (a * b)"

text \<open>\<open>Math.floor(Math.random() * activeFingers.length)\<close>.\<close>

definition randomIndex :: "real \<Rightarrow> nat \<Rightarrow> int" where
  "randomIndex r n = \<lfloor>double_mul (Math_random r) (real n)\<rfloor>"

text \<open>Indexing an array: \<open>undefined\<close> (here \<open>None\<close>) outside its range.\<close>

definition nth_opt :: "'a list \<Rightarrow> int \<Rightarrow> 'a option" where
  "nth_opt xs i = (if 0 \<le> i \<and> i < int (length xs) then Some (xs ! nat i) else None)"

text \<open>
  Running a callback: \<open>self\<close> is the id of the timer that runs it, \<open>r\<close> the
  draw whose double \<open>Math.random()\<close> returns when the callback calls it. The result is the closure with its
  own variables updated, and the new state. In the outcome callback \<open>winner.scale\<close> throws a
  TypeError when \<open>winner\<close> is \<open>undefined\<close>, which ends the callback there.
\<close>

fun exec :: "real \<Rightarrow> nat \<Rightarrow> callback \<Rightarrow> game_state \<Rightarrow> callback \<times> game_state" where
  "exec r self (CycleTick activeFingers currentIndex) w =
     (let currentIndex' = (currentIndex + 1) mod length activeFingers
      in (CycleTick activeFingers currentIndex',
          updateFingerColors activeFingers currentIndex' w))"
| "exec r self (Outcome activeFingers interval) w =
     (let w1 = clearInterval interval w;
          i = randomIndex r (length activeFingers);
          w2 = w1\<lparr>winnerIndex := Some i\<rparr>;
          w3 = playWinnerSound w2
      in case nth_opt activeFingers i of
           None \<Rightarrow> (Outcome activeFingers interval, w3)
         | Some winner \<Rightarrow>
             let updatedColors = paint winner_color i activeFingers;
                 w4 = w3\<lparr>fingerColors := fingerColors w3 ++ updatedColors\<rparr>;
                 w5 = snd (setInterval (BlinkTick winner 0) 300 w4);
                 w6 = snd (setTimeout SessionEnd 2000 w5)
             in (Outcome activeFingers interval, w6))"
| "exec r self (BlinkTick winner blinkCount) w =
     (let blinkCount' = blinkCount + 1;
          w1 = w\<lparr>fingerColors := (fingerColors w)
                  (finger_id winner \<mapsto>
                     (if blinkCount' mod 2 = 0 then winner_color else winner_blink_color))\<rparr>;
          w2 = (if blinkCount' \<ge> 6 then clearInterval self w1 else w1)
      in (BlinkTick winner blinkCount', w2))"
| "exec r self SessionEnd w = (SessionEnd, w\<lparr>selecting := False\<rparr>)"

text \<open>
  The platform runs the next pending timer: the clock moves to its due time, a one-shot
  timer is removed, the callback runs, and a repeating timer that is still registered
  afterwards is rescheduled one period later.
\<close>

definition fire :: "real \<Rightarrow> game_state \<Rightarrow> game_state" where
  "fire r w =
     (case earliest (timers w) of
        None \<Rightarrow> w
      | Some t \<Rightarrow>
          let w1 = w\<lparr>now := max (now w) (due t)\<rparr>;
              w2 = (case repeat t of None \<Rightarrow> clearInterval (timerId t) w1 | Some p \<Rightarrow> w1);
              res = exec r (timerId t) (callback t) w2;
              w3 = snd res
          in case repeat t of
               None \<Rightarrow> w3
             | Some p \<Rightarrow>
                 w3\<lparr>timers :=
                      reschedule (scheduler w3) (timerId t) (now w3 + p) (fst res) (timers w3)\<rparr>)"

text \<open>
  Pick Finger. The springs that bring every scale back to 1 and the reset of
  \<open>selectionAnimation\<close> belong to the animation driver and are not part of the state.
\<close>

definition selectRandomFinger :: "game_state \<Rightarrow> game_state" where
  "selectRandomFinger w =
     (let activeFingers = filter active (fingers w)
      in if length activeFingers = 0 \<or> selecting w then w
         else
           let w1 = w\<lparr>selecting := True, winnerIndex := None\<rparr>;
               iv = setInterval (CycleTick activeFingers 0) selectionSpeed w1;
               selectionTime = length activeFingers * selectionSpeed * numberOfCycles
           in snd (setTimeout (Outcome activeFingers (fst iv)) selectionTime (snd iv)))"

section \<open>Events\<close>

text \<open>
  What can happen to the screen: the game area is measured, a gesture handler or a
  control runs, time passes (never beyond the next due timer), or the next timer runs.
\<close>

datatype event =
    Measure real real real real
  | Grant "touch list"
  | Move "touch list"
  | Release
  | PickFinger
  | Restart
  | Elapse nat
  | TimerFires real

definition elapse :: "nat \<Rightarrow> game_state \<Rightarrow> game_state" where
  "elapse d w =
     (case earliest (timers w) of
        None \<Rightarrow> w\<lparr>now := now w + d\<rparr>
      | Some t \<Rightarrow> w\<lparr>now := min (now w + d) (max (now w) (due t))\<rparr>)"

fun step :: "event \<Rightarrow> game_state \<Rightarrow> game_state" where
  "step (Measure px py wd ht) w = measureGameArea px py wd ht w"
| "step (Grant touches) w = onPanResponderGrant touches w"
| "step (Move touches) w = onPanResponderMove touches w"
| "step Release w = w"
| "step PickFinger w = selectRandomFinger w"
| "step Restart w = handleRestart w"
| "step (Elapse d) w = elapse d w"
| "step (TimerFires r) w = fire r w"

definition run :: "event list \<Rightarrow> game_state \<Rightarrow> game_state" where
  "run es w = fold step es w"

section \<open>The states of one selection session\<close>

text \<open>
  The states a session passes through when it starts in a state \<open>w\<close> with no timer
  pending and nothing else happens meanwhile, in closed form; the lemmas below show that
  running the timers from \<open>selectRandomFinger w\<close> gives exactly these states.
  \<open>ticks w\<close> is the number of runs of the cycling interval before the outcome timeout
  runs: the run due at the same instant as the timeout counts under \<open>CreationOrder\<close>
  only. \<open>cycling w j\<close> is the state after \<open>j\<close> of these runs, \<open>blinking w r b\<close> the
  state \<open>b\<close> blink runs after the outcome drawn from \<open>r\<close>, and \<open>finished w r\<close> the
  state after the session-end timeout.
\<close>

definition ticks :: "game_state \<Rightarrow> nat" where
  "ticks w =
     (case scheduler w of
        CreationOrder \<Rightarrow> length (filter active (fingers w)) * numberOfCycles
      | RequestOrder \<Rightarrow> length (filter active (fingers w)) * numberOfCycles - 1)"

definition cycling :: "game_state \<Rightarrow> nat \<Rightarrow> game_state" where
  "cycling w j =
     (let snap = filter active (fingers w);
          a = nextTimerId w;
          iv = \<lparr>timerId = a, due = now w + 200 * (j + 1), repeat = Some 200,
                callback = CycleTick snap (j mod length snap)\<rparr>;
          oc = \<lparr>timerId = a + 1, due = now w + 600 * length snap, repeat = None,
                callback = Outcome snap a\<rparr>
      in w\<lparr>selecting := True, winnerIndex := None,
           fingerColors :=
             (if j = 0 then fingerColors w
              else fingerColors w ++ paint highlight_color (int (j mod length snap)) snap),
           now := now w + 200 * j,
           timers := (if scheduler w = RequestOrder \<and> 0 < j then [oc, iv] else [iv, oc]),
           nextTimerId := a + 2\<rparr>)"

definition fresh :: "game_state \<Rightarrow> bool" where
  "fresh w = (timers w = [] \<and> \<not> selecting w \<and> filter active (fingers w) \<noteq> [])"

definition blinking :: "game_state \<Rightarrow> real \<Rightarrow> nat \<Rightarrow> game_state" where
  "blinking w r b =
     (let snap = filter active (fingers w);
          a = nextTimerId w;
          i = randomIndex r (length snap);
          winner = snap ! nat i;
          T = now w + 600 * length snap;
          bl = \<lparr>timerId = a + 2, due = T + 300 * (b + 1), repeat = Some 300,
                callback = BlinkTick winner b\<rparr>;
          se = \<lparr>timerId = a + 3, due = T + 2000, repeat = None, callback = SessionEnd\<rparr>;
          base = fingerColors w ++ paint winner_color i snap
      in w\<lparr>selecting := True, winnerIndex := Some i,
           fingerColors :=
             (if b = 0 then base
              else base(finger_id winner \<mapsto>
                     (if b mod 2 = 0 then winner_color else winner_blink_color))),
           cues := cues w @ [WinnerSound],
           now := T + 300 * b,
           timers :=
             (if 6 \<le> b then [se]
              else if scheduler w = RequestOrder \<and> 0 < b then [se, bl] else [bl, se]),
           nextTimerId := a + 4\<rparr>)"

definition finished :: "game_state \<Rightarrow> real \<Rightarrow> game_state" where
  "finished w r =
     (blinking w r 6)
       \<lparr>selecting := False, now := now w + 600 * length (filter active (fingers w)) + 2000,
        timers := []\<rparr>"

text \<open>The registry invariant: every contact is active.\<close>

definition all_active :: "game_state \<Rightarrow> bool" where
  "all_active w = list_all active (fingers w)"

text \<open>Whether a pending timer is a blink timer.\<close>

fun is_blink :: "callback \<Rightarrow> bool" where
  "is_blink (BlinkTick f c) = True"
| "is_blink (CycleTick fs c) = False"
| "is_blink (Outcome fs i) = False"
| "is_blink SessionEnd = False"

text \<open>
  The current index of a cycling phase lives in the closure of its interval timer:
  \<open>currentIndex i w\<close> reads it from the pending timer with id \<open>i\<close>, and is
  \<open>None\<close> once that timer is cleared.
\<close>

fun closure_index :: "callback \<Rightarrow> nat option" where
  "closure_index (CycleTick fs c) = Some c"
| "closure_index (Outcome fs i) = None"
| "closure_index (BlinkTick f c) = None"
| "closure_index SessionEnd = None"

definition currentIndex :: "nat \<Rightarrow> game_state \<Rightarrow> nat option" where
  "currentIndex i w =
     (case find (\<lambda>t. timerId t = i) (timers w) of
        None \<Rightarrow> None
      | Some t \<Rightarrow> closure_index (callback t))"

text \<open>
  The touches of one event have different identifiers, hence different keys; an event
  sequence in which every touch-start batch is of that kind keeps the ids of the registry
  distinct.
\<close>

fun distinct_batch :: "event \<Rightarrow> bool" where
  "distinct_batch (Grant touches) = distinct (map touch_key touches)"
| "distinct_batch (Measure px py wd ht) = True"
| "distinct_batch (Move touches) = True"
| "distinct_batch Release = True"
| "distinct_batch PickFinger = True"
| "distinct_batch Restart = True"
| "distinct_batch (Elapse d) = True"
| "distinct_batch (TimerFires r) = True"

section \<open>A concrete board\<close>

definition example_touch :: touch where
  "example_touch = \<lparr>touch_identifier = 1, pageX = 100, pageY = 100\<rparr>"

definition example_touch2 :: touch where
  "example_touch2 = \<lparr>touch_identifier = 2, pageX = 200, pageY = 200\<rparr>"

definition example_board :: game_state where
  "example_board =
     run [Measure 0 0 400 800, Grant [example_touch]] (initial_state RequestOrder)"

definition example_moved :: touch where
  "example_moved = \<lparr>touch_identifier = 1, pageX = 120, pageY = 130\<rparr>"

definition example_strayed :: touch where
  "example_strayed = \<lparr>touch_identifier = 1, pageX = 120, pageY = 760\<rparr>"

definition example_low :: touch where
  "example_low = \<lparr>touch_identifier = 3, pageX = 100, pageY = 750\<rparr>"

text \<open>
  A board of six contacts, and the state in which its session is interrupted just before
  the outcome: after the last tick the board is reset and a seventh contact is placed, so
  that the registry no longer holds any contact of the snapshot.
\<close>

definition example_six_touches :: "touch list" where
  "example_six_touches =
     [\<lparr>touch_identifier = 1, pageX = 50, pageY = 100\<rparr>,
      \<lparr>touch_identifier = 2, pageX = 100, pageY = 100\<rparr>,
      \<lparr>touch_identifier = 3, pageX = 150, pageY = 100\<rparr>,
      \<lparr>touch_identifier = 4, pageX = 200, pageY = 100\<rparr>,
      \<lparr>touch_identifier = 5, pageX = 250, pageY = 100\<rparr>,
      \<lparr>touch_identifier = 6, pageX = 300, pageY = 100\<rparr>]"

definition example_six :: game_state where
  "example_six = run [Measure 0 0 400 800, Grant example_six_touches] (initial_state RequestOrder)"

definition example_touch7 :: touch where
  "example_touch7 = \<lparr>touch_identifier = 7, pageX = 350, pageY = 100\<rparr>"

definition example_late :: game_state where
  "example_late =
     run [Restart, Grant [example_touch7]] ((fire 0 ^^ 17) (selectRandomFinger example_six))"

text \<open>A board of two contacts.\<close>

definition example_pair :: game_state where
  "example_pair =
     run [Measure 0 0 400 800, Grant [example_touch, example_touch2]]
       (initial_state RequestOrder)"

text \<open>
  A session that begins while a timer of the session before it is still pending: the first
  session has run up to its last blink, and 100 later the board is reset, the contact is
  placed again and Pick Finger starts a second session; the next timer to run is the
  session-end timeout that the first session left behind.
\<close>

definition example_stale :: game_state where
  "example_stale =
     run [Elapse 100, Restart, Grant [example_touch], PickFinger, TimerFires 0]
       ((fire 0 ^^ 9) (selectRandomFinger example_board))"

section \<open>Rounding to a double\<close>

lemma exponent_bounds:
  assumes "0 < x"
  shows "2 powi exponent x \<le> x \<and> x < 2 powi (exponent x + 1)"
proof (cases "1 \<le> x")
  case True
  define n where "n = \<lfloor>x\<rfloor>"
  have n: "0 < n" using True by (simp add: n_def)
  have e: "exponent x = bitlen n - 1" using True assms by (simp add: exponent_def n_def)
  have b: "2 ^ nat (bitlen n - 1) \<le> n" "n < 2 ^ nat (bitlen n)"
    using bitlen_bounds [OF n] by simp_all
  have p: "1 \<le> bitlen n" using n by (simp add: bitlen_alt_def)
  have "real_of_int (2 ^ nat (bitlen n - 1)) \<le> real_of_int n"
    using b(1) by (simp only: of_int_le_iff)
  then have "(2::real) ^ nat (bitlen n - 1) \<le> real_of_int n" by simp
  moreover have "real_of_int n \<le> x" by (simp add: n_def)
  ultimately have "(2::real) ^ nat (bitlen n - 1) \<le> x" by linarith
  then have 1: "2 powi (bitlen n - 1) \<le> x" using p by (simp add: power_int_def)
  have "n + 1 \<le> 2 ^ nat (bitlen n)" using b(2) by simp
  then have "real_of_int (n + 1) \<le> real_of_int (2 ^ nat (bitlen n))"
    by (simp only: of_int_le_iff)
  then have "real_of_int (n + 1) \<le> (2::real) ^ nat (bitlen n)" by simp
  moreover have "x < real_of_int (n + 1)" by (simp add: n_def)
  ultimately have "x < (2::real) ^ nat (bitlen n)" by linarith
  then have 2: "x < 2 powi (bitlen n)" using p by (simp add: power_int_def)
  show ?thesis using 1 2 by (simp add: e)
next
  case False
  define y where "y = 1 / x"
  define c where "c = \<lceil>y\<rceil> - 1"
  have y: "1 < y" using False assms by (simp add: y_def)
  then have c: "0 < c" by (simp add: c_def less_ceiling_iff)
  have e: "exponent x = - bitlen c" using False assms by (simp add: exponent_def c_def y_def)
  have b: "2 ^ nat (bitlen c - 1) \<le> c" "c < 2 ^ nat (bitlen c)"
    using bitlen_bounds [OF c] by simp_all
  have p: "1 \<le> bitlen c" using c by (simp add: bitlen_alt_def)
  have cy: "real_of_int c < y" "y \<le> real_of_int c + 1"
    by (simp_all add: c_def ceiling_correct)
  have "c + 1 \<le> 2 ^ nat (bitlen c)" using b(2) by simp
  then have "real_of_int (c + 1) \<le> real_of_int (2 ^ nat (bitlen c))"
    by (simp only: of_int_le_iff)
  then have "real_of_int (c + 1) \<le> (2::real) ^ nat (bitlen c)" by simp
  then have "y \<le> 2 ^ nat (bitlen c)" using cy(2) by simp
  then have "1 / 2 ^ nat (bitlen c) \<le> 1 / y" using y by (simp add: frac_le)
  then have 1: "2 powi (- bitlen c) \<le> x"
    using p assms by (simp add: power_int_def y_def field_simps)
  have "real_of_int (2 ^ nat (bitlen c - 1)) \<le> real_of_int c"
    using b(1) by (simp only: of_int_le_iff)
  then have "(2::real) ^ nat (bitlen c - 1) \<le> real_of_int c" by simp
  then have "2 ^ nat (bitlen c - 1) < y" using cy(1) by linarith
  then have "x < 1 / 2 ^ nat (bitlen c - 1)" using assms by (simp add: y_def field_simps)
  moreover have "(2::real) powi (- (bitlen c - 1)) = 1 / 2 ^ nat (bitlen c - 1)"
    using p by (simp only: power_int_minus) (simp add: power_int_def field_simps)
  moreover have "- bitlen c + 1 = - (bitlen c - 1)" by simp
  ultimately have 2: "x < 2 powi (- bitlen c + 1)" by (simp only:)
  show ?thesis using 1 2 by (simp add: e)
qed

lemma exponent_eq:
  assumes "2 powi e \<le> x" and "x < 2 powi (e + 1)"
  shows "exponent x = e"
proof -
  have x: "0 < x" using assms(1) zero_less_power_int [of "2::real" e] by linarith
  note b = exponent_bounds [OF x]
  have "\<not> exponent x < e"
  proof
    assume "exponent x < e"
    then have "exponent x + 1 \<le> e" by simp
    then have "(2::real) powi (exponent x + 1) \<le> 2 powi e" by (intro power_int_increasing) simp_all
    then show False using b assms(1) by linarith
  qed
  moreover have "\<not> e < exponent x"
  proof
    assume "e < exponent x"
    then have "e + 1 \<le> exponent x" by simp
    then have "(2::real) powi (e + 1) \<le> 2 powi exponent x" by (intro power_int_increasing) simp_all
    then show False using b assms(2) by linarith
  qed
  ultimately show ?thesis by simp
qed

lemma round_half_even_bounds:
  "real_of_int (round_half_even q) \<le> q + 1 / 2 \<and> q - 1 / 2 \<le> real_of_int (round_half_even q)"
  by (simp add: round_half_even_def Let_def) linarith

lemma round_half_even_ge: "real_of_int m \<le> q \<Longrightarrow> m \<le> round_half_even q"
  by (simp add: round_half_even_def Let_def le_floor_iff) linarith

lemma ulp_pos: "0 < ulp x"
  by (simp add: ulp_def)

lemma half_ulp_small:
  assumes "0 < x" and "x < N" and "1 \<le> N"
  shows "ulp x / 2 < N / 2 ^ 53"
proof (cases "- 1022 \<le> exponent x")
  case True
  then have "ulp x = 2 powi (exponent x - 52)" by (simp add: ulp_def max_def)
  also have "\<dots> = 2 powi exponent x / 2 ^ 52" by (simp add: power_int_diff)
  finally have "ulp x / 2 = 2 powi exponent x / 2 ^ 53" by simp
  moreover have "2 powi exponent x < N" using exponent_bounds [OF assms(1)] assms(2) by linarith
  ultimately show ?thesis by (simp add: divide_strict_right_mono)
next
  case False
  then have "ulp x = 2 powi (- 1074)" by (simp add: ulp_def max_def)
  then have "ulp x / 2 = 1 / 2 ^ 1075" by (simp add: power_int_def field_simps)
  also have "\<dots> < 1 / (2::real) ^ 53" by (simp add: frac_less2)
  also have "\<dots> \<le> N / 2 ^ 53" using assms(3) by (simp add: divide_right_mono)
  finally show ?thesis .
qed

lemma round_double_nonneg: "0 \<le> x \<Longrightarrow> 0 \<le> round_double x"
proof -
  assume x: "0 \<le> x"
  have "real_of_int 0 \<le> x / ulp x" using x ulp_pos [of x] by simp
  then have "0 \<le> round_half_even (x / ulp x)" by (rule round_half_even_ge)
  then show ?thesis using ulp_pos [of x] by (simp add: round_double_def)
qed

lemma round_double_below:
  assumes "0 \<le> x" and "1 \<le> N" and "x \<le> N * (1 - 1 / 2 ^ 53)"
  shows "round_double x < N"
proof (cases "x = 0")
  case True
  then show ?thesis using assms(2) by (simp add: round_double_def)
next
  case False
  then have x: "0 < x" using assms(1) by simp
  have "N * (1 - 1 / 2 ^ 53) < N" using assms(2) by (simp add: field_simps)
  then have xN: "x < N" using assms(3) by linarith
  have "real_of_int (round_half_even (x / ulp x)) \<le> x / ulp x + 1 / 2"
    using round_half_even_bounds by blast
  then have "real_of_int (round_half_even (x / ulp x)) * ulp x \<le> (x / ulp x + 1 / 2) * ulp x"
    using ulp_pos [of x] by (simp add: mult_right_mono)
  also have "\<dots> = x + ulp x / 2" using ulp_pos [of x] by (simp add: field_simps)
  also have "\<dots> < x + N / 2 ^ 53" using half_ulp_small [OF x xN assms(2)] by simp
  also have "\<dots> \<le> N" using assms(3) by (simp add: field_simps)
  finally show ?thesis using False by (simp add: round_double_def)
qed

lemma Math_random_bounds:
  assumes "0 \<le> r" and "r < 1"
  shows "0 \<le> Math_random r \<and> Math_random r \<le> r \<and> Math_random r \<le> 1 - 1 / 2 ^ 53"
proof (cases "r = 0")
  case True
  then show ?thesis by (simp add: Math_random_def truncate_double_def)
next
  case False
  then have r: "0 < r" using assms(1) by simp
  define n where "n = \<lfloor>r / ulp r\<rfloor>"
  have m: "Math_random r = real_of_int n * ulp r"
    using False r ulp_pos [of r]
    by (simp add: Math_random_def truncate_double_def round_toward_zero_def n_def)
  have "0 \<le> n" using r ulp_pos [of r] by (simp add: n_def)
  then have 0: "0 \<le> Math_random r" using ulp_pos [of r] by (simp add: m)
  have "real_of_int n \<le> r / ulp r" by (simp add: n_def)
  then have "real_of_int n * ulp r \<le> r" by (simp only: pos_le_divide_eq [OF ulp_pos])
  then have 1: "Math_random r \<le> r" by (simp add: m)
  have 2: "Math_random r \<le> 1 - 1 / 2 ^ 53"
  proof (cases "r < 1 / 2")
    case True
    then show ?thesis using 1 by simp
  next
    case False
    then have "exponent r = - 1" using assms(2) by (intro exponent_eq) simp_all
    then have u: "ulp r = 1 / 2 ^ 53" by (simp add: ulp_def power_int_def field_simps)
    have "r / ulp r < real_of_int (2 ^ 53)" using assms(2) by (simp add: u)
    then have "n < 2 ^ 53" unfolding n_def by (simp only: floor_less_iff)
    then have "n \<le> 2 ^ 53 - 1" by simp
    then have "real_of_int n \<le> real_of_int (2 ^ 53 - 1)" by linarith
    then show ?thesis by (simp add: m u field_simps)
  qed
  show ?thesis using 0 1 2 by simp
qed

lemma randomIndex_range:
  assumes "0 \<le> r" and "r < 1" and "0 < n"
  shows "0 \<le> randomIndex r n \<and> randomIndex r n < int n"
proof -
  note m = Math_random_bounds [OF assms(1,2)]
  have x0: "0 \<le> Math_random r * real n" using m by simp
  have "Math_random r * real n \<le> (1 - 1 / 2 ^ 53) * real n"
    using m by (intro mult_right_mono) simp_all
  then have x1: "Math_random r * real n \<le> real n * (1 - 1 / 2 ^ 53)" by (simp add: mult.commute)
  have n1: "1 \<le> real n" using assms(3) by simp
  have "round_double (Math_random r * real n) < real n"
    using round_double_below [OF x0 n1 x1] .
  moreover have "0 \<le> round_double (Math_random r * real n)"
    using round_double_nonneg [OF x0] .
  ultimately show ?thesis by (simp add: randomIndex_def double_mul_def floor_less_iff)
qed

lemma ulp_small_exponent:
  assumes "0 < x" and "x < 2 ^ 53"
  shows "\<exists>d::nat. ulp x = 1 / 2 ^ d"
proof -
  have "2 powi exponent x \<le> x" using exponent_bounds [OF assms(1)] by simp
  then have "(2::real) powi exponent x < 2 powi 53" using assms(2) by simp
  then have "exponent x < 53" by (intro power_int_le_imp_less_exp [of "2::real"]) simp_all
  then have m: "0 \<le> 52 - max (exponent x) (- 1022)" by simp
  have "max (exponent x) (- 1022) - 52 = - (52 - max (exponent x) (- 1022))" by simp
  then have "ulp x = inverse (2 powi (52 - max (exponent x) (- 1022)))"
    unfolding ulp_def by (simp only: power_int_minus)
  also have "\<dots> = 1 / 2 ^ nat (52 - max (exponent x) (- 1022))"
    using m by (simp add: power_int_def field_simps)
  finally show ?thesis by blast
qed

lemma round_double_above:
  assumes "0 \<le> x" and "x < 2 ^ 53" and "real j \<le> x"
  shows "real j \<le> round_double x"
proof (cases "x = 0")
  case True
  then show ?thesis using assms(3) by (simp add: round_double_def)
next
  case False
  then have x: "0 < x" using assms(1) by simp
  obtain d :: nat where u: "ulp x = 1 / 2 ^ d" using ulp_small_exponent [OF x assms(2)] by blast
  have "real_of_int (int j * 2 ^ d) = real j * 2 ^ d" by simp
  also have "\<dots> \<le> x * 2 ^ d" using assms(3) by simp
  finally have "real_of_int (int j * 2 ^ d) \<le> x / ulp x" by (simp add: u)
  then have "int j * 2 ^ d \<le> round_half_even (x / ulp x)" by (rule round_half_even_ge)
  then have "real_of_int (int j * 2 ^ d) \<le> real_of_int (round_half_even (x / ulp x))"
    by (simp only: of_int_le_iff)
  then have "real j * 2 ^ d \<le> real_of_int (round_half_even (x / ulp x))" by simp
  then have "real j \<le> real_of_int (round_half_even (x / ulp x)) / 2 ^ d"
    by (simp add: pos_le_divide_eq)
  then show ?thesis using False by (simp add: round_double_def u)
qed

lemma randomIndex_sandwich:
  assumes "0 \<le> r" and "r < 1" and "j < n" and "n \<le> 2 ^ 32"
  shows "(real j \<le> Math_random r * real n
          \<and> Math_random r * real n \<le> (real j + 1) * (1 - 1 / 2 ^ 53)
          \<longrightarrow> randomIndex r n = int j)
         \<and> (randomIndex r n = int j
          \<longrightarrow> real j * (1 - 1 / 2 ^ 53) \<le> Math_random r * real n
              \<and> Math_random r * real n < real j + 1)"
proof -
  define x where "x = Math_random r * real n"
  note m = Math_random_bounds [OF assms(1,2)]
  have x0: "0 \<le> x" using m by (simp add: x_def)
  have "x \<le> 1 * real n" unfolding x_def using m by (intro mult_right_mono) simp_all
  also have "\<dots> \<le> 2 ^ 32" using assms(4) by (simp add: numeral_power_le_of_nat_cancel_iff)
  also have "\<dots> < (2::real) ^ 53" by simp
  finally have x53: "x < 2 ^ 53" .
  have i: "randomIndex r n = \<lfloor>round_double x\<rfloor>"
    by (simp add: randomIndex_def double_mul_def x_def)
  have a: "randomIndex r n = int j" if h: "real j \<le> x" "x \<le> (real j + 1) * (1 - 1 / 2 ^ 53)"
  proof -
    have "real j \<le> round_double x" using round_double_above [OF x0 x53 h(1)] .
    moreover have "round_double x < real j + 1"
      using round_double_below [OF x0 _ h(2)] by simp
    ultimately show ?thesis by (simp add: i floor_eq_iff)
  qed
  have b: "real j * (1 - 1 / 2 ^ 53) \<le> x \<and> x < real j + 1" if h: "randomIndex r n = int j"
  proof -
    have f: "real j \<le> round_double x" "round_double x < real j + 1"
      using h by (simp_all add: i floor_eq_iff)
    have 1: "x < real j + 1"
    proof (rule ccontr)
      assume "\<not> x < real j + 1"
      then have "real (j + 1) \<le> x" by simp
      then have "real (j + 1) \<le> round_double x" by (rule round_double_above [OF x0 x53])
      then show False using f(2) by simp
    qed
    have 2: "real j * (1 - 1 / 2 ^ 53) \<le> x"
    proof (rule ccontr)
      assume n: "\<not> real j * (1 - 1 / 2 ^ 53) \<le> x"
      then have "j \<noteq> 0" using x0 by (cases j) simp_all
      then have "1 \<le> real j" by simp
      moreover have "x \<le> real j * (1 - 1 / 2 ^ 53)" using n by simp
      ultimately have "round_double x < real j" by (rule round_double_below [OF x0])
      then show False using f(1) by simp
    qed
    show ?thesis using 1 2 by simp
  qed
  show ?thesis using a b unfolding x_def by blast
qed

lemma example_randomIndex: "randomIndex 0 n = 0"
  by (simp add: randomIndex_def double_mul_def Math_random_def truncate_double_def
      round_double_def)

lemma ulp_eq:
  assumes "2 powi e \<le> x" and "x < 2 powi (e + 1)" and "- 1022 \<le> e"
  shows "ulp x = 2 powi (e - 52)"
  using exponent_eq [OF assms(1,2)] assms(3) by (simp add: ulp_def)

lemma randomIndex_example: "randomIndex (7505999378950826 / 9007199254740992) 6 = 5"
proof -
  define r :: real where "r = 7505999378950826 / 9007199254740992"
  define x :: real where "x = r * 6"
  have r0: "r \<noteq> 0" and x0: "x \<noteq> 0" by (simp_all add: x_def r_def)
  have "ulp r = 2 powi (- 1 - 52)" by (rule ulp_eq) (simp_all add: r_def)
  then have u: "ulp r = 1 / 9007199254740992" by (simp add: power_int_def power_divide)
  have "r / ulp r = real_of_int 7505999378950826" unfolding u by (simp add: r_def)
  then have rt: "round_toward_zero (r / ulp r) = 7505999378950826"
    by (simp only: round_toward_zero_def floor_of_int ceiling_of_int if_cancel)
  have "truncate_double r = real_of_int 7505999378950826 * ulp r"
    unfolding truncate_double_def rt using r0 by simp
  also have "\<dots> = r" unfolding u by (simp add: r_def)
  finally have t: "Math_random r = r" by (simp add: Math_random_def)
  have "ulp x = 2 powi (2 - 52)" by (rule ulp_eq) (simp_all add: x_def r_def)
  then have v: "ulp x = 1 / 1125899906842624" by (simp add: power_int_def power_divide)
  have q: "x / ulp x = 11258999068426239 / 2" unfolding v by (simp add: x_def r_def)
  have rh: "round_half_even (11258999068426239 / 2) = 5629499534213120"
    by (simp add: round_half_even_def Let_def)
  have "round_double x = real_of_int 5629499534213120 * ulp x"
    unfolding round_double_def q rh using x0 by simp
  also have "\<dots> = 5" unfolding v by simp
  finally have "\<lfloor>round_double x\<rfloor> = 5" by simp
  then have "randomIndex r 6 = 5" unfolding randomIndex_def double_mul_def t x_def by simp
  then show ?thesis by (simp only: r_def)
qed

lemma ulp_below_one:
  assumes "0 < x" and "x < 1"
  shows "\<exists>d::nat. ulp x = 1 / 2 ^ (53 + d)"
proof -
  have "2 powi exponent x \<le> x" using exponent_bounds [OF assms(1)] by simp
  then have "(2::real) powi exponent x < 2 powi 0" using assms(2) by simp
  then have "exponent x < 0" by (intro power_int_le_imp_less_exp [of "2::real"]) simp_all
  then have m: "53 \<le> 52 - max (exponent x) (- 1022)" by simp
  have "max (exponent x) (- 1022) - 52 = - (52 - max (exponent x) (- 1022))" by simp
  then have "ulp x = inverse (2 powi (52 - max (exponent x) (- 1022)))"
    unfolding ulp_def by (simp only: power_int_minus)
  also have "\<dots> = 1 / 2 ^ nat (52 - max (exponent x) (- 1022))"
    using m by (simp add: power_int_def field_simps)
  also have "nat (52 - max (exponent x) (- 1022))
             = 53 + (nat (52 - max (exponent x) (- 1022)) - 53)" using m by simp
  finally show ?thesis by blast
qed

lemma Math_random_double:
  assumes "k < (2::nat) ^ 53"
  shows "Math_random (real k / 2 ^ 53) = real k / 2 ^ 53"
proof (cases "k = 0")
  case True
  then show ?thesis by (simp add: Math_random_def truncate_double_def)
next
  case False
  define x :: real where "x = real k / 2 ^ 53"
  have x0: "0 < x" using False by (simp add: x_def)
  have "real k < 2 ^ 53" using assms by (simp add: of_nat_less_numeral_power_cancel_iff)
  then have x1: "x < 1" by (simp add: x_def)
  obtain d :: nat where u: "ulp x = 1 / 2 ^ (53 + d)" using ulp_below_one [OF x0 x1] by blast
  have "x / ulp x = real_of_int (int k * 2 ^ d)" unfolding u by (simp add: x_def power_add)
  then have "round_toward_zero (x / ulp x) = int k * 2 ^ d"
    by (simp only: round_toward_zero_def floor_of_int ceiling_of_int if_cancel)
  then have "truncate_double x = real_of_int (int k * 2 ^ d) * ulp x"
    unfolding truncate_double_def using x0 by simp
  also have "\<dots> = x" unfolding u by (simp add: x_def power_add)
  finally show ?thesis by (simp add: Math_random_def x_def)
qed

section \<open>Basic facts\<close>

lemma generateDots_loop_eq: "generateDots_loop i ds = ds @ map new_dot [i..<numDots]"
proof (induction i ds rule: generateDots_loop.induct)
  case (1 i ds)
  show ?case
  proof (cases "i < numDots")
    case True
    then have "generateDots_loop i ds = generateDots_loop (i + 1) (ds @ [new_dot i])"
      by (simp add: generateDots_loop.simps [of i])
    also have "\<dots> = (ds @ [new_dot i]) @ map new_dot [i + 1..<numDots]"
      using 1 True by simp
    also have "\<dots> = ds @ map new_dot [i..<numDots]"
      using True by (simp add: upt_conv_Cons)
    finally show ?thesis .
  next
    case False
    then show ?thesis by (simp add: generateDots_loop.simps [of i])
  qed
qed

lemma generateDots_eq: "generateDots = map new_dot [0..<8]"
  by (simp add: generateDots_def generateDots_loop_eq numDots_def)

lemma fold_set_idle_fingers: "fingers (fold set_idle ts w) = fingers w"
  by (induction ts arbitrary: w) (simp_all add: set_idle_def)

lemma fold_set_idle_selecting: "selecting (fold set_idle ts w) = selecting w"
  by (induction ts arbitrary: w) (simp_all add: set_idle_def)

lemma fold_set_idle_colors:
  "fingerColors (fold set_idle ts w) k =
     (if k \<in> touch_key ` set ts then Some idle_color else fingerColors w k)"
  by (induction ts arbitrary: w) (auto simp: set_idle_def)

lemma grant_fingers:
  "\<not> selecting w \<Longrightarrow>
   fingers (onPanResponderGrant ts w) =
     filter (\<lambda>f. finger_id f \<notin> touch_key ` {t \<in> set ts. valid_touch w t} \<and> active f) (fingers w)
     @ map new_finger (filter (valid_touch w) ts)"
  by (simp add: onPanResponderGrant_def Let_def fold_set_idle_fingers playTapSound_def
      new_finger_def image_image)

lemma grant_colors:
  "\<not> selecting w \<Longrightarrow>
   fingerColors (onPanResponderGrant ts w) k =
     (if k \<in> touch_key ` {t \<in> set ts. valid_touch w t} then Some idle_color else fingerColors w k)"
  by (simp add: onPanResponderGrant_def Let_def fold_set_idle_colors playTapSound_def)

lemma grant_selecting: "selecting (onPanResponderGrant ts w) = selecting w"
  by (simp add: onPanResponderGrant_def Let_def fold_set_idle_selecting playTapSound_def)

lemma fold_paint_dom:
  "dom (fold (paint_entry c h) (enumerate n fs) m) = dom m \<union> finger_id ` set fs"
  by (induction fs arbitrary: n m) (auto simp: paint_entry_def)

lemma paint_dom: "dom (paint c h fs) = finger_id ` set fs"
  by (simp add: paint_def fold_paint_dom)

lemma paint_absorb: "paint c h fs ++ paint c' h' fs = paint c' h' fs"
proof
  fix k
  show "(paint c h fs ++ paint c' h' fs) k = paint c' h' fs k"
  proof (cases "paint c' h' fs k")
    case None
    then have "k \<notin> dom (paint c' h' fs)" by auto
    then have "k \<notin> dom (paint c h fs)" by (simp add: paint_dom)
    then show ?thesis using None by (auto simp: map_add_def)
  next
    case (Some v)
    then show ?thesis by (simp add: map_add_def)
  qed
qed

lemma paint_absorb_add: "(m ++ paint c h fs) ++ paint c' h' fs = m ++ paint c' h' fs"
  by (simp add: map_add_assoc [symmetric] paint_absorb)

lemma fold_paint_other:
  "k \<notin> finger_id ` set fs \<Longrightarrow> fold (paint_entry c h) (enumerate n fs) m k = m k"
  by (induction fs arbitrary: n m) (auto simp: paint_entry_def)

lemma fold_paint_nth:
  "distinct (map finger_id fs) \<Longrightarrow> p < length fs \<Longrightarrow>
   fold (paint_entry c h) (enumerate n fs) m (finger_id (fs ! p)) =
     Some (if int (n + p) = h then c else idle_color)"
proof (induction fs arbitrary: n m p)
  case Nil
  then show ?case by simp
next
  case (Cons f fs)
  show ?case
  proof (cases p)
    case 0
    have "finger_id f \<notin> finger_id ` set fs" using Cons.prems by auto
    then have "fold (paint_entry c h) (enumerate (Suc n) fs) (paint_entry c h (n, f) m) (finger_id f)
               = paint_entry c h (n, f) m (finger_id f)"
      by (rule fold_paint_other)
    then have "fold (paint_entry c h) (enumerate n (f # fs)) m (finger_id ((f # fs) ! p))
               = paint_entry c h (n, f) m (finger_id f)"
      using 0 by simp
    also have "\<dots> = Some (if int (n + p) = h then c else idle_color)"
      using 0 by (simp add: paint_entry_def)
    finally show ?thesis .
  next
    case (Suc q)
    then have "q < length fs" using Cons.prems by simp
    moreover have "distinct (map finger_id fs)" using Cons.prems by simp
    ultimately show ?thesis using Suc Cons.IH [of q "Suc n"] by simp
  qed
qed

lemma paint_nth:
  "distinct (map finger_id fs) \<Longrightarrow> p < length fs \<Longrightarrow>
   paint c h fs (finger_id (fs ! p)) = Some (if int p = h then c else idle_color)"
  using fold_paint_nth [of fs p c h 0 Map.empty] by (simp add: paint_def)

lemma pick_fresh: "fresh w \<Longrightarrow> selectRandomFinger w = cycling w 0"
  by (simp add: fresh_def selectRandomFinger_def cycling_def Let_def setInterval_def
      setTimeout_def selectionSpeed_def numberOfCycles_def)

lemma fire_cycling:
  assumes "fresh w" and "j + 1 \<le> ticks w"
  shows "fire r (cycling w j) = cycling w (j + 1)"
proof -
  let ?K = "length (filter active (fingers w))"
  have K: "0 < ?K" using assms(1) by (simp add: fresh_def)
  have m: "(j mod ?K + 1) mod ?K = (j + 1) mod ?K"
    by (simp add: mod_Suc_eq)
  show ?thesis
  proof (cases "scheduler w")
    case CreationOrder
    then have "j + 1 \<le> 3 * ?K" using assms(2) by (simp add: ticks_def numberOfCycles_def)
    then show ?thesis using CreationOrder K m
      by (simp add: cycling_def fire_def Let_def updateFingerColors_def reschedule_def
          paint_absorb_add)
  next
    case RequestOrder
    then have "j + 1 < 3 * ?K" using assms(2) K by (simp add: ticks_def numberOfCycles_def)
    then show ?thesis using RequestOrder K m
      by (simp add: cycling_def fire_def Let_def updateFingerColors_def reschedule_def
          paint_absorb_add clearInterval_def)
  qed
qed

section \<open>One session, step by step\<close>

lemma run_cycling:
  "fresh w \<Longrightarrow> j \<le> ticks w \<Longrightarrow> (fire r ^^ j) (selectRandomFinger w) = cycling w j"
proof (induction j)
  case 0
  then show ?case by (simp add: pick_fresh)
next
  case (Suc j)
  then have "(fire r ^^ j) (selectRandomFinger w) = cycling w j" by simp
  then show ?case using Suc.prems fire_cycling [of w j r] by simp
qed

lemma ticks_bounds:
  "fresh w \<Longrightarrow> 2 \<le> ticks w \<and> ticks w \<le> 3 * length (filter active (fingers w))
     \<and> 3 * length (filter active (fingers w)) \<le> ticks w + 1"
  by (cases "scheduler w"; cases "filter active (fingers w)")
     (simp_all add: fresh_def ticks_def numberOfCycles_def)

lemma fire_outcome:
  assumes "fresh w" and "0 \<le> r" and "r < 1"
  shows "fire r (cycling w (ticks w)) = blinking w r 0"
proof -
  let ?K = "length (filter active (fingers w))"
  have K: "0 < ?K" using assms(1) by (simp add: fresh_def)
  have i: "0 \<le> randomIndex r ?K" "randomIndex r ?K < int ?K"
    using randomIndex_range [OF assms(2,3) K] by simp_all
  have t: "0 < ticks w" using ticks_bounds [OF assms(1)] by simp
  show ?thesis
  proof (cases "scheduler w")
    case CreationOrder
    then show ?thesis using K i
      by (simp add: cycling_def blinking_def fire_def Let_def ticks_def numberOfCycles_def
          clearInterval_def playWinnerSound_def nth_opt_def setInterval_def setTimeout_def
          paint_absorb_add)
  next
    case RequestOrder
    then have "200 * (ticks w + 1) = 600 * ?K" using K by (simp add: ticks_def numberOfCycles_def)
    then show ?thesis using RequestOrder K i t
      by (simp add: cycling_def blinking_def fire_def Let_def 
          clearInterval_def playWinnerSound_def nth_opt_def setInterval_def setTimeout_def
          paint_absorb_add)
  qed
qed

lemma fire_blinking:
  assumes "b < 6"
  shows "fire r' (blinking w r b) = blinking w r (b + 1)"
proof (cases "scheduler w")
  case CreationOrder
  then show ?thesis using assms
    by (simp add: blinking_def fire_def Let_def clearInterval_def reschedule_def)
next
  case RequestOrder
  then show ?thesis using assms
    by (simp add: blinking_def fire_def Let_def clearInterval_def reschedule_def)
qed

lemma fire_session_end: "fire r' (blinking w r 6) = finished w r"
  by (simp add: blinking_def finished_def fire_def Let_def clearInterval_def)

lemma run_blinking:
  assumes "fresh w" and "0 \<le> r" and "r < 1" and "b \<le> 6"
  shows "(fire r ^^ (ticks w + 1 + b)) (selectRandomFinger w) = blinking w r b"
  using assms(4)
proof (induction b)
  case 0
  have "(fire r ^^ (ticks w + 1)) (selectRandomFinger w)
        = fire r ((fire r ^^ ticks w) (selectRandomFinger w))" by simp
  also have "\<dots> = fire r (cycling w (ticks w))"
    using run_cycling [OF assms(1), of "ticks w" r] by simp
  also have "\<dots> = blinking w r 0" using fire_outcome [OF assms(1-3)] .
  finally show ?case by simp
next
  case (Suc b)
  then have "(fire r ^^ (ticks w + 1 + b)) (selectRandomFinger w) = blinking w r b" by simp
  moreover have "b < 6" using Suc.prems by simp
  ultimately show ?case using fire_blinking [of b r w r] by simp
qed

lemma run_finished:
  assumes "fresh w" and "0 \<le> r" and "r < 1"
  shows "(fire r ^^ (ticks w + 8)) (selectRandomFinger w) = finished w r"
proof -
  have "(fire r ^^ (ticks w + 8)) (selectRandomFinger w)
        = fire r ((fire r ^^ (ticks w + 1 + 6)) (selectRandomFinger w))"
    by (simp add: numeral_eq_Suc)
  also have "\<dots> = fire r (blinking w r 6)"
    using run_blinking [OF assms, of 6] by simp
  finally show ?thesis by (simp add: fire_session_end)
qed

lemma example_touch_key: "touch_key example_touch = ''1''"
  by (simp add: touch_key_def example_touch_def template_literal_def string_of_nat.simps
      digit_char_def)

lemma example_touch2_key: "touch_key example_touch2 = ''2''"
  by (simp add: touch_key_def example_touch2_def template_literal_def string_of_nat.simps
      digit_char_def)

lemma example_board_eq:
  "example_board =
     \<lparr>fingers = [new_finger example_touch], selecting = False, winnerIndex = None,
      fingerColors = [''1'' \<mapsto> idle_color],
      gameAreaDimensions = \<lparr>areaX = 0, areaY = 0, width = 400, height = 800, bottom = 800\<rparr>,
      cues = [TapSound], now = 0, timers = [], nextTimerId = 0, scheduler = RequestOrder\<rparr>"
  by (simp add: example_board_def run_def initial_state_def measureGameArea_def
      onPanResponderGrant_def Let_def valid_touch_def isTouchInGameArea_def playTapSound_def
      set_idle_def example_touch_key) (simp add: example_touch_def)

lemma example_board_fresh: "fresh example_board"
  by (simp add: fresh_def example_board_eq new_finger_def)

lemma example_board_ticks: "ticks example_board = 2"
  by (simp add: ticks_def example_board_eq new_finger_def numberOfCycles_def)

lemma run_selecting:
  assumes "fresh w" and "0 \<le> r" and "r < 1" and "j < ticks w + 8"
  shows "selecting ((fire r ^^ j) (selectRandomFinger w))"
proof (cases "j \<le> ticks w")
  case True
  then show ?thesis using run_cycling [OF assms(1) True, of r] by (simp add: cycling_def Let_def)
next
  case False
  define b where "b = j - (ticks w + 1)"
  have b: "j = ticks w + 1 + b" and "b \<le> 6"
    using False assms(4) by (simp_all add: b_def)
  then show ?thesis using run_blinking [OF assms(1-3), of b] by (simp add: blinking_def Let_def)
qed

lemma singleton_nth: "length xs = 1 \<Longrightarrow> xs ! 0 = a \<Longrightarrow> xs = [a]"
  by (cases xs) auto

lemma pick_noop: "filter active (fingers w) = [] \<or> selecting w \<Longrightarrow> selectRandomFinger w = w"
  by (auto simp: selectRandomFinger_def Let_def)


lemma example_ids: "filter active (fingers example_board) = [new_finger example_touch]"
  by (simp add: example_board_eq new_finger_def)

lemma new_dot_nth:
  "i < 8 \<Longrightarrow> generateDots ! i = new_dot i"
  by (simp add: generateDots_eq del: upt_Suc)

lemma new_finger_dots:
  "length (dots (new_finger t)) = 8
   \<and> (\<forall>i<8. angle (dots (new_finger t) ! i) = real i * (2 * Math_PI / 8)
             \<and> distance (dots (new_finger t) ! i) = 95)"
  by (simp add: new_finger_def new_dot_nth new_dot_def numDots_def) (simp add: generateDots_eq)

lemma example_valid:
  "gameAreaDimensions w = gameAreaDimensions example_board \<Longrightarrow>
   valid_touch w example_touch \<and> valid_touch w example_touch2 \<and> valid_touch w example_moved
   \<and> \<not> valid_touch w example_strayed \<and> \<not> valid_touch w example_low"
  by (simp add: valid_touch_def isTouchInGameArea_def example_board_eq example_touch_def
      example_touch2_def example_moved_def example_strayed_def example_low_def)

lemma example_keys:
  "touch_key example_moved = ''1'' \<and> touch_key example_strayed = ''1''
   \<and> touch_key example_low = ''3''"
  by (simp add: touch_key_def example_moved_def example_strayed_def example_low_def
      template_literal_def string_of_nat.simps digit_char_def)

lemma example_cycling_fields:
  "selecting (selectRandomFinger example_board)
   \<and> gameAreaDimensions (selectRandomFinger example_board) = gameAreaDimensions example_board
   \<and> fingers (selectRandomFinger example_board) = fingers example_board"
  by (simp add: pick_fresh [OF example_board_fresh] cycling_def Let_def)

lemma border_idle:
  "fingerColors w k = Some idle_color \<Longrightarrow>
   backgroundColor w k = idle_color \<and> getBorderColor w k = ''white'' \<and> getBorderWidth w k = 4"
  by (simp add: backgroundColor_def getBorderColor_def getBorderWidth_def is_winner_colored_def
      idle_color_def winner_color_def winner_blink_color_def)

lemma border_winner:
  "fingerColors w k = Some winner_color \<Longrightarrow>
   backgroundColor w k = winner_color \<and> getBorderColor w k = ''#ffcc00''
   \<and> getBorderWidth w k = 6"
  by (simp add: backgroundColor_def getBorderColor_def getBorderWidth_def is_winner_colored_def
      winner_color_def)

lemma example_blinking_fields:
  "selecting (blinking example_board 0 b)
   \<and> gameAreaDimensions (blinking example_board 0 b) = gameAreaDimensions example_board
   \<and> fingerColors (blinking example_board 0 b) ''1''
       = Some (if b mod 2 = 0 then winner_color else winner_blink_color)"
  by (simp add: blinking_def Let_def example_ids example_randomIndex new_finger_def
      example_touch_key paint_def paint_entry_def)

lemma example_finished_fields:
  "\<not> selecting (finished example_board 0)
   \<and> gameAreaDimensions (finished example_board 0) = gameAreaDimensions example_board
   \<and> fingerColors (finished example_board 0) ''1'' = Some winner_color"
  using example_blinking_fields [of 6] by (simp add: finished_def)

lemma example_run:
  "(fire 0 ^^ 3) (selectRandomFinger example_board) = blinking example_board 0 0
   \<and> (fire 0 ^^ 10) (selectRandomFinger example_board) = finished example_board 0"
  using run_blinking [OF example_board_fresh, of 0 0] run_finished [OF example_board_fresh, of 0]
  by (simp add: example_board_ticks)

lemma exec_fingers: "fingers (snd (exec r self cb w)) = fingers w"
  by (cases cb)
     (simp_all add: Let_def updateFingerColors_def clearInterval_def playWinnerSound_def
        setInterval_def setTimeout_def split: option.split)

lemma fire_fingers: "fingers (fire r w) = fingers w"
  by (simp add: fire_def Let_def exec_fingers clearInterval_def split: option.split)

lemma pick_fingers: "fingers (selectRandomFinger w) = fingers w"
  by (simp add: selectRandomFinger_def Let_def setInterval_def setTimeout_def)

lemma move_finger_active: "active (move_finger w ts f) = active f"
  by (simp add: move_finger_def split: option.split)

lemma grant_all_active: "\<not> selecting w \<Longrightarrow> all_active (onPanResponderGrant ts w)"
  by (auto simp: all_active_def grant_fingers list_all_iff new_finger_def)

lemma step_all_active: "all_active w \<Longrightarrow> all_active (step e w)"
proof (cases e)
  case (Grant ts)
  assume "all_active w"
  then show ?thesis using Grant grant_all_active [of w ts]
    by (cases "selecting w") (simp_all add: onPanResponderGrant_def)
next
  case (Move ts)
  assume "all_active w"
  then show ?thesis using Move
    by (simp add: all_active_def onPanResponderMove_def list_all_iff move_finger_active)
qed (simp_all add: all_active_def measureGameArea_def pick_fingers handleRestart_def elapse_def
      fire_fingers split: option.split)

lemma run_all_active: "all_active w \<Longrightarrow> all_active (run es w)"
  unfolding run_def by (induction es arbitrary: w) (simp_all add: step_all_active)

lemma blinking0_colors_snap:
  assumes "distinct (map finger_id (filter active (fingers w)))"
    and "p < length (filter active (fingers w))"
  shows "fingerColors (blinking w r 0) (finger_id (filter active (fingers w) ! p))
         = Some (if int p = randomIndex r (length (filter active (fingers w)))
                 then winner_color else idle_color)"
  using paint_nth [OF assms]
  by (simp add: blinking_def Let_def map_add_def)

lemma blinking0_colors_other:
  assumes "k \<notin> finger_id ` set (filter active (fingers w))"
  shows "fingerColors (blinking w r 0) k = fingerColors w k"
proof -
  have "k \<notin> dom (paint winner_color (randomIndex r (length (filter active (fingers w))))
                   (filter active (fingers w)))"
    using assms by (simp add: paint_dom)
  then show ?thesis by (simp add: blinking_def Let_def map_add_def domIff)
qed

lemma fire_idle: "timers w = [] \<Longrightarrow> fire r w = w"
  by (simp add: fire_def)

lemma fires_idle: "timers w = [] \<Longrightarrow> (fire r ^^ n) w = w"
  by (induction n) (simp_all add: fire_idle)

lemma blinking_fields:
  "selecting (blinking w r b)
   \<and> winnerIndex (blinking w r b) = Some (randomIndex r (length (filter active (fingers w))))
   \<and> now (blinking w r b) = now w + 600 * length (filter active (fingers w)) + 300 * b
   \<and> fingers (blinking w r b) = fingers w
   \<and> gameAreaDimensions (blinking w r b) = gameAreaDimensions w"
  by (simp add: blinking_def Let_def)

lemma blinking_winner_color:
  "0 < b \<Longrightarrow>
   fingerColors (blinking w r b)
     (finger_id (filter active (fingers w)
        ! nat (randomIndex r (length (filter active (fingers w))))))
   = Some (if even b then winner_color else winner_blink_color)"
  by (simp add: blinking_def Let_def even_iff_mod_2_eq_zero)

lemma blinking_other_color:
  "k \<noteq> finger_id (filter active (fingers w)
          ! nat (randomIndex r (length (filter active (fingers w))))) \<Longrightarrow>
   fingerColors (blinking w r b) k = fingerColors (blinking w r 0) k"
  by (simp add: blinking_def Let_def)

lemma blinking_timers:
  "timers (blinking w r b) =
     (let bl = \<lparr>timerId = nextTimerId w + 2,
                 due = now w + 600 * length (filter active (fingers w)) + 300 * (b + 1),
                 repeat = Some 300,
                 callback = BlinkTick (filter active (fingers w)
                   ! nat (randomIndex r (length (filter active (fingers w))))) b\<rparr>;
          se = \<lparr>timerId = nextTimerId w + 3,
                 due = now w + 600 * length (filter active (fingers w)) + 2000,
                 repeat = None, callback = SessionEnd\<rparr>
      in if 6 \<le> b then [se]
         else if scheduler w = RequestOrder \<and> 0 < b then [se, bl] else [bl, se])"
  by (simp add: blinking_def Let_def)

lemma example_winner:
  "filter active (fingers example_board)
     ! nat (randomIndex 0 (length (filter active (fingers example_board))))
   = new_finger example_touch"
  by (simp add: example_ids example_randomIndex)



lemma cycling_fields:
  "now (cycling w j) = now w + 200 * j
   \<and> currentIndex (nextTimerId w) (cycling w j) = Some (j mod length (filter active (fingers w)))
   \<and> filter (\<lambda>t. closure_index (callback t) \<noteq> None) (timers (cycling w j))
       = [\<lparr>timerId = nextTimerId w, due = now w + 200 * (j + 1), repeat = Some 200,
           callback = CycleTick (filter active (fingers w))
             (j mod length (filter active (fingers w)))\<rparr>]"
  by (simp add: cycling_def Let_def currentIndex_def)

lemma cycling_colors:
  assumes "distinct (map finger_id (filter active (fingers w)))"
    and "p < length (filter active (fingers w))" and "0 < j"
  shows "fingerColors (cycling w j) (finger_id (filter active (fingers w) ! p))
         = Some (if p = j mod length (filter active (fingers w))
                 then highlight_color else idle_color)"
  using paint_nth [OF assms(1,2)] assms(3)
  by (simp add: cycling_def Let_def map_add_def)

lemma blinking0_no_cycle: "currentIndex (nextTimerId w) (blinking w r 0) = None"
  by (simp add: blinking_def Let_def currentIndex_def)

lemma ticks_at_least_3:
  fixes K i N :: nat
  assumes "0 < K" and "i < K" and "3 * K \<le> N"
  shows "3 \<le> card {j. 1 \<le> j \<and> j \<le> N \<and> j mod K = i}"
proof -
  define i' where "i' = (if i = 0 then K else i)"
  have i': "1 \<le> i'" "i' \<le> K" "i' mod K = i" using assms by (auto simp: i'_def)
  have "(i' + K) mod K = i" "(i' + 2 * K) mod K = i" using i'(3) by simp_all
  then have "{i', i' + K, i' + 2 * K} \<subseteq> {j. 1 \<le> j \<and> j \<le> N \<and> j mod K = i}"
    using assms i' by auto
  moreover have "finite {j. 1 \<le> j \<and> j \<le> N \<and> j mod K = i}" by simp
  ultimately have "card {i', i' + K, i' + 2 * K} \<le> card {j. 1 \<le> j \<and> j \<le> N \<and> j mod K = i}"
    by (rule card_mono [rotated])
  moreover have "card {i', i' + K, i' + 2 * K} = 3" using assms(1) by simp
  ultimately show ?thesis by simp
qed

lemma ticks_first_index_2:
  fixes K N :: nat
  assumes "0 < K" and "N + 1 = 3 * K"
  shows "card {j. 1 \<le> j \<and> j \<le> N \<and> j mod K = 0} = 2"
proof -
  have "{j. 1 \<le> j \<and> j \<le> N \<and> j mod K = 0} = {K, 2 * K}"
  proof (rule set_eqI)
    fix j
    show "(j \<in> {j. 1 \<le> j \<and> j \<le> N \<and> j mod K = 0}) = (j \<in> {K, 2 * K})"
    proof
      assume "j \<in> {j. 1 \<le> j \<and> j \<le> N \<and> j mod K = 0}"
      then have h: "1 \<le> j" "j \<le> N" "j mod K = 0" by simp_all
      then obtain q where q: "j = K * q" by (auto simp: mod_eq_0_iff_dvd)
      have "q \<noteq> 0" using h(1) q by (cases q) simp_all
      moreover have "j < 3 * K" using h(2) assms(2) by linarith
      then have "K * q < K * 3" using q by (simp add: mult.commute)
      then have "q < 3" by simp
      ultimately have "q = 1 \<or> q = 2" by arith
      then show "j \<in> {K, 2 * K}" using q by auto
    next
      assume "j \<in> {K, 2 * K}"
      then show "j \<in> {j. 1 \<le> j \<and> j \<le> N \<and> j mod K = 0}" using assms by auto
    qed
  qed
  then show ?thesis using assms(1) by simp
qed

lemma request_order_first_index:
  fixes w :: game_state and r :: real
  assumes "fresh w" and "scheduler w = RequestOrder"
  shows "card {j. 1 \<le> j \<and> j \<le> ticks w
                \<and> currentIndex (nextTimerId w) ((fire r ^^ j) (selectRandomFinger w)) = Some 0}
         = 2"
proof -
  let ?K = "length (filter active (fingers w))"
  have K: "0 < ?K" using assms(1) by (simp add: fresh_def)
  have n: "ticks w + 1 = 3 * ?K" using assms(2) K by (simp add: ticks_def numberOfCycles_def)
  have "currentIndex (nextTimerId w) ((fire r ^^ j) (selectRandomFinger w)) = Some (j mod ?K)"
    if "j \<le> ticks w" for j
    using run_cycling [OF assms(1) that, of r] cycling_fields [of w j] by simp
  then have "{j. 1 \<le> j \<and> j \<le> ticks w
                \<and> currentIndex (nextTimerId w) ((fire r ^^ j) (selectRandomFinger w)) = Some 0}
             = {j. 1 \<le> j \<and> j \<le> ticks w \<and> j mod ?K = 0}"
    by auto
  then show ?thesis using ticks_first_index_2 [OF K n] by (simp only:)
qed

section \<open>The ids of the registry are distinct\<close>

lemma digit_cases: "d < 10 \<Longrightarrow> d \<in> {0, 1, 2, 3, 4, 5, 6, 7, 8, 9::nat}"
  by auto

lemma digit_value_char: "d < 10 \<Longrightarrow> digit_value (digit_char d) = d"
  using digit_cases [of d] by (auto simp: digit_char_def digit_value_def)

lemma digit_char_not_minus: "d < 10 \<Longrightarrow> digit_char d \<noteq> CHR ''-''"
  using digit_cases [of d] by (auto simp: digit_char_def)

lemma nat_of_string_of_nat: "nat_of_string (string_of_nat n) = n"
proof (induction n rule: string_of_nat.induct)
  case (1 n)
  show ?case
  proof (cases "n < 10")
    case True
    then show ?thesis
      by (simp add: string_of_nat.simps [of n] nat_of_string_def digit_value_char)
  next
    case False
    then have "nat_of_string (string_of_nat (n div 10)) = n div 10" using 1 by simp
    then show ?thesis using False
      by (simp add: string_of_nat.simps [of n] nat_of_string_def digit_value_char)
  qed
qed

lemma string_of_nat_head: "\<exists>c cs. string_of_nat n = c # cs \<and> c \<noteq> CHR ''-''"
proof (induction n rule: string_of_nat.induct)
  case (1 n)
  show ?case
  proof (cases "n < 10")
    case True
    then show ?thesis by (simp add: string_of_nat.simps [of n] digit_char_not_minus)
  next
    case False
    then obtain c cs where "string_of_nat (n div 10) = c # cs \<and> c \<noteq> CHR ''-''"
      using 1 by blast
    then show ?thesis using False by (simp add: string_of_nat.simps [of n])
  qed
qed

lemma template_literal_inject: "template_literal i = template_literal j \<Longrightarrow> i = j"
proof -
  assume e: "template_literal i = template_literal j"
  obtain c cs where a: "string_of_nat (nat i) = c # cs" "c \<noteq> CHR ''-''"
    using string_of_nat_head by blast
  obtain d ds where b: "string_of_nat (nat j) = d # ds" "d \<noteq> CHR ''-''"
    using string_of_nat_head by blast
  consider "i < 0" "j < 0" | "0 \<le> i" "0 \<le> j" | "i < 0" "0 \<le> j" | "0 \<le> i" "j < 0"
    by linarith
  then show "i = j"
  proof cases
    case 1
    then have "string_of_nat (nat (- i)) = string_of_nat (nat (- j))"
      using e by (simp add: template_literal_def)
    then have "nat (- i) = nat (- j)" using nat_of_string_of_nat by metis
    then show ?thesis using 1 by simp
  next
    case 2
    then have "string_of_nat (nat i) = string_of_nat (nat j)"
      using e by (simp add: template_literal_def)
    then have "nat i = nat j" using nat_of_string_of_nat by metis
    then show ?thesis using 2 by simp
  next
    case 3
    then show ?thesis using e b by (simp add: template_literal_def)
  next
    case 4
    then show ?thesis using e a by (simp add: template_literal_def)
  qed
qed

lemma distinct_touch_keys:
  assumes "distinct (map touch_identifier ts)"
  shows "distinct (map touch_key ts)"
proof -
  have "inj_on template_literal (set (map touch_identifier ts))"
    by (rule inj_onI) (rule template_literal_inject)
  then have "distinct (map template_literal (map touch_identifier ts))"
    using assms by (simp only: distinct_map)
  moreover have "map touch_key ts = map template_literal (map touch_identifier ts)"
    by (simp add: touch_key_def)
  ultimately show ?thesis by (simp only:)
qed

lemma move_finger_id: "finger_id (move_finger w ts f) = finger_id f"
  by (simp add: move_finger_def split: option.split)

lemma grant_distinct_ids:
  assumes "distinct (map finger_id (fingers w))" and "distinct (map touch_key ts)"
  shows "distinct (map finger_id (fingers (onPanResponderGrant ts w)))"
proof (cases "selecting w")
  case True
  then show ?thesis using assms(1) by (simp add: onPanResponderGrant_def)
next
  case False
  have i: "finger_id (new_finger t) = touch_key t" for t by (simp add: new_finger_def)
  have n: "map (finger_id \<circ> new_finger) (filter (valid_touch w) ts)
           = map touch_key (filter (valid_touch w) ts)"
    by (simp add: i)
  have a: "distinct (map touch_key (filter (valid_touch w) ts))"
    using assms(2) by (rule distinct_map_filter)
  have b: "distinct (map finger_id
             (filter (\<lambda>f. finger_id f \<notin> touch_key ` {t \<in> set ts. valid_touch w t} \<and> active f)
                (fingers w)))"
    using assms(1) by (rule distinct_map_filter)
  show ?thesis
    using a b by (auto simp: grant_fingers [OF False] n i)
qed

lemma step_distinct_ids:
  assumes "distinct (map finger_id (fingers w))" and "distinct_batch e"
  shows "distinct (map finger_id (fingers (step e w)))"
proof (cases e)
  case (Grant ts)
  then show ?thesis using assms grant_distinct_ids [of w ts] by simp
next
  case (Move ts)
  have m: "map (finger_id \<circ> move_finger w ts) (fingers w) = map finger_id (fingers w)"
    by (simp add: move_finger_id)
  show ?thesis using Move assms(1) by (simp add: onPanResponderMove_def m)
qed (use assms(1) in \<open>simp_all add: measureGameArea_def pick_fingers handleRestart_def
      elapse_def fire_fingers split: option.split\<close>)

lemma run_distinct_ids:
  "distinct (map finger_id (fingers w)) \<Longrightarrow> list_all distinct_batch es \<Longrightarrow>
   distinct (map finger_id (filter active (fingers (run es w))))"
proof (induction es arbitrary: w)
  case Nil
  then show ?case by (simp add: run_def distinct_map_filter)
next
  case (Cons e es)
  then have "distinct (map finger_id (fingers (step e w)))"
    using step_distinct_ids [of w e] by simp
  then have "distinct (map finger_id (filter active (fingers (run es (step e w)))))"
    using Cons.IH [of "step e w"] Cons.prems by simp
  then show ?case by (simp add: run_def)
qed

section \<open>The outcome timer\<close>

lemma pick_outcome_timer:
  assumes "\<not> selecting w" and "filter active (fingers w) \<noteq> []"
  shows "last (timers (selectRandomFinger w))
         = \<lparr>timerId = nextTimerId w + 1,
            due = now w + length (filter active (fingers w)) * 200 * 3, repeat = None,
            callback = Outcome (filter active (fingers w)) (nextTimerId w)\<rparr>"
  using assms
  by (simp add: selectRandomFinger_def Let_def setInterval_def setTimeout_def
      selectionSpeed_def numberOfCycles_def)

lemma fire_outcome_fields:
  assumes "earliest (timers w) = Some t" and "repeat t = None"
    and "callback t = Outcome snap iv" and "snap \<noteq> []" and "0 \<le> r" and "r < 1"
  shows "winnerIndex (fire r w) = Some (randomIndex r (length snap))
         \<and> fingerColors (fire r w)
             = fingerColors w ++ paint winner_color (randomIndex r (length snap)) snap
         \<and> cues (fire r w) = cues w @ [WinnerSound]
         \<and> now (fire r w) = max (now w) (due t)"
proof -
  have K: "0 < length snap" using assms(4) by simp
  have i: "0 \<le> randomIndex r (length snap)" "randomIndex r (length snap) < int (length snap)"
    using randomIndex_range [OF assms(5,6) K] by simp_all
  show ?thesis using assms(1-3) i
    by (simp add: fire_def Let_def clearInterval_def playWinnerSound_def nth_opt_def
        setInterval_def setTimeout_def)
qed

lemma earliest_cycling_end:
  assumes "fresh w"
  shows "earliest (timers (cycling w (ticks w))) = Some (last (timers (selectRandomFinger w)))"
proof -
  let ?K = "length (filter active (fingers w))"
  have K: "0 < ?K" using assms by (simp add: fresh_def)
  have t: "0 < ticks w" using ticks_bounds [OF assms] by simp
  have l: "last (timers (selectRandomFinger w))
           = \<lparr>timerId = nextTimerId w + 1, due = now w + ?K * 200 * 3, repeat = None,
              callback = Outcome (filter active (fingers w)) (nextTimerId w)\<rparr>"
    using assms by (intro pick_outcome_timer) (simp_all add: fresh_def)
  show ?thesis
  proof (cases "scheduler w")
    case CreationOrder
    then show ?thesis unfolding l using K
      by (simp add: cycling_def Let_def ticks_def numberOfCycles_def)
  next
    case RequestOrder
    then have "200 * (ticks w + 1) = 600 * ?K" using K by (simp add: ticks_def numberOfCycles_def)
    then show ?thesis unfolding l using RequestOrder K t
      by (simp add: cycling_def Let_def)
  qed
qed


lemma example_six_keys:
  "map touch_key example_six_touches = [''1'', ''2'', ''3'', ''4'', ''5'', ''6'']"
  by (simp add: example_six_touches_def touch_key_def template_literal_def
      string_of_nat.simps digit_char_def)

lemma example_touch7_key: "touch_key example_touch7 = ''7''"
  by (simp add: touch_key_def example_touch7_def template_literal_def string_of_nat.simps
      digit_char_def)

lemma new_finger_ids: "map finger_id (map new_finger ts) = map touch_key ts"
  by (simp add: new_finger_def)

lemma new_finger_active: "filter active (map new_finger ts) = map new_finger ts"
  by (induction ts) (simp_all add: new_finger_def)

lemma example_six_valid:
  "gameAreaDimensions w = \<lparr>areaX = 0, areaY = 0, width = 400, height = 800, bottom = 800\<rparr> \<Longrightarrow>
   filter (valid_touch w) example_six_touches = example_six_touches
   \<and> valid_touch w example_touch7"
  by (simp add: valid_touch_def isTouchInGameArea_def example_six_touches_def
      example_touch7_def)

lemma fold_set_idle_eq: "\<exists>m. fold set_idle ts w = w\<lparr>fingerColors := m\<rparr>"
proof (induction ts arbitrary: w)
  case Nil
  show ?case by (rule exI [of _ "fingerColors w"]) simp
next
  case (Cons t ts)
  obtain m where "fold set_idle ts (set_idle t w) = (set_idle t w)\<lparr>fingerColors := m\<rparr>"
    using Cons by blast
  then have "fold set_idle (t # ts) w = (set_idle t w)\<lparr>fingerColors := m\<rparr>" by simp
  also have "\<dots> = w\<lparr>fingerColors := m\<rparr>" by (simp add: set_idle_def)
  finally show ?case by blast
qed

lemma example_six_fields:
  "fingers example_six = map new_finger example_six_touches
   \<and> \<not> selecting example_six \<and> winnerIndex example_six = None
   \<and> gameAreaDimensions example_six
       = \<lparr>areaX = 0, areaY = 0, width = 400, height = 800, bottom = 800\<rparr>
   \<and> cues example_six = [TapSound] \<and> now example_six = 0 \<and> timers example_six = []
   \<and> nextTimerId example_six = 0 \<and> scheduler example_six = RequestOrder"
proof -
  define m where "m = measureGameArea 0 0 400 800 (initial_state RequestOrder)"
  have g: "gameAreaDimensions m
           = \<lparr>areaX = 0, areaY = 0, width = 400, height = 800, bottom = 800\<rparr>"
    and f: "fingers m = []" "\<not> selecting m" "winnerIndex m = None" "cues m = []" "now m = 0"
      "timers m = []" "nextTimerId m = 0" "scheduler m = RequestOrder"
    by (simp_all add: m_def measureGameArea_def initial_state_def)
  have v: "filter (valid_touch m) example_six_touches = example_six_touches"
    using example_six_valid [OF g] by simp
  have l: "0 < length example_six_touches" by (simp add: example_six_touches_def)
  have e: "example_six = onPanResponderGrant example_six_touches m"
    by (simp add: example_six_def run_def m_def)
  obtain c where c: "fold set_idle example_six_touches (playTapSound m)
                     = (playTapSound m)\<lparr>fingerColors := c\<rparr>"
    using fold_set_idle_eq by blast
  have x: "example_six
           = (playTapSound m)\<lparr>fingerColors := c,
                fingers := map new_finger example_six_touches\<rparr>"
    unfolding e using f l
    by (simp add: onPanResponderGrant_def Let_def v c) (simp add: playTapSound_def)
  show ?thesis unfolding x using f g by (simp add: playTapSound_def)
qed


lemma example_six_snap: "filter active (fingers example_six) = map new_finger example_six_touches"
  using example_six_fields by (simp add: new_finger_active)

lemma example_six_length: "length (filter active (fingers example_six)) = 6"
  unfolding example_six_snap by (simp add: example_six_touches_def)

lemma example_six_ids:
  "map finger_id (filter active (fingers example_six)) = [''1'', ''2'', ''3'', ''4'', ''5'', ''6'']"
  unfolding example_six_snap by (simp only: new_finger_ids example_six_keys)

lemma example_six_fresh: "fresh example_six"
proof -
  have "filter active (fingers example_six) \<noteq> []" using example_six_length by auto
  then show ?thesis using example_six_fields by (simp add: fresh_def)
qed

lemma example_six_ticks: "ticks example_six = 17"
proof -
  have s: "scheduler example_six = RequestOrder" using example_six_fields by simp
  show ?thesis by (simp add: ticks_def s example_six_length numberOfCycles_def)
qed

lemma example_late_fields:
  "fingers example_late = [new_finger example_touch7]
   \<and> fingerColors example_late = [''7'' \<mapsto> idle_color]
   \<and> cues example_late = [TapSound, TapSound] \<and> now example_late = 3400
   \<and> timers example_late
       = [\<lparr>timerId = 1, due = 3600, repeat = None,
            callback = Outcome (map new_finger example_six_touches) 0\<rparr>,
          \<lparr>timerId = 0, due = 3600, repeat = Some 200,
            callback = CycleTick (map new_finger example_six_touches) 5\<rparr>]"
proof -
  define c where "c = handleRestart (cycling example_six 17)"
  have "(fire 0 ^^ 17) (selectRandomFinger example_six) = cycling example_six 17"
    using example_six_fresh by (intro run_cycling) (simp_all add: example_six_ticks)
  then have e: "example_late = onPanResponderGrant [example_touch7] c"
    by (simp add: example_late_def run_def c_def)
  have f: "fingers c = []" "\<not> selecting c" "fingerColors c = Map.empty" "cues c = [TapSound]"
    "now c = 3400"
    "gameAreaDimensions c = \<lparr>areaX = 0, areaY = 0, width = 400, height = 800, bottom = 800\<rparr>"
    using example_six_fields by (simp_all add: c_def handleRestart_def cycling_def Let_def)
  have x: "scheduler example_six = RequestOrder" "nextTimerId example_six = 0"
    "now example_six = 0"
    using example_six_fields by simp_all
  have t: "timers c
       = [\<lparr>timerId = 1, due = 3600, repeat = None,
            callback = Outcome (map new_finger example_six_touches) 0\<rparr>,
          \<lparr>timerId = 0, due = 3600, repeat = Some 200,
            callback = CycleTick (map new_finger example_six_touches) 5\<rparr>]"
    by (simp add: c_def handleRestart_def cycling_def Let_def x example_six_length)
       (simp add: example_six_snap)
  have v: "valid_touch c example_touch7" using example_six_valid [OF f(6)] by simp
  show ?thesis unfolding e using f t v
    by (simp add: onPanResponderGrant_def Let_def playTapSound_def set_idle_def
        example_touch7_key)
qed

section \<open>The board of two contacts\<close>

lemma example_pair_eq:
  "example_pair =
     \<lparr>fingers = [new_finger example_touch, new_finger example_touch2], selecting = False,
      winnerIndex = None, fingerColors = [''1'' \<mapsto> idle_color, ''2'' \<mapsto> idle_color],
      gameAreaDimensions = \<lparr>areaX = 0, areaY = 0, width = 400, height = 800, bottom = 800\<rparr>,
      cues = [TapSound], now = 0, timers = [], nextTimerId = 0, scheduler = RequestOrder\<rparr>"
  by (simp add: example_pair_def run_def initial_state_def measureGameArea_def
      onPanResponderGrant_def Let_def valid_touch_def isTouchInGameArea_def playTapSound_def
      set_idle_def example_touch_key example_touch2_key)
     (simp add: example_touch_def example_touch2_def)

lemma example_pair_snap:
  "filter active (fingers example_pair) = [new_finger example_touch, new_finger example_touch2]"
  by (simp add: example_pair_eq new_finger_def)

lemma example_pair_fresh: "fresh example_pair"
proof -
  have "timers example_pair = []" "\<not> selecting example_pair" by (simp_all add: example_pair_eq)
  then show ?thesis by (simp add: fresh_def example_pair_snap)
qed

lemma example_pair_ticks: "ticks example_pair = 5"
proof -
  have s: "scheduler example_pair = RequestOrder" by (simp add: example_pair_eq)
  show ?thesis by (simp add: ticks_def s example_pair_snap numberOfCycles_def)
qed

lemma example_pair_ids:
  "finger_id (filter active (fingers example_pair) ! 0) = ''1''
   \<and> finger_id (filter active (fingers example_pair) ! 1) = ''2''
   \<and> distinct (map finger_id (filter active (fingers example_pair)))
   \<and> length (filter active (fingers example_pair)) = 2"
  by (simp add: example_pair_snap new_finger_def example_touch_key example_touch2_key)

lemma example_pair_tick:
  assumes "1 \<le> j" and "j \<le> 5"
  shows "now ((fire 0 ^^ j) (selectRandomFinger example_pair)) = 200 * j
         \<and> currentIndex 0 ((fire 0 ^^ j) (selectRandomFinger example_pair)) = Some (j mod 2)
         \<and> fingerColors ((fire 0 ^^ j) (selectRandomFinger example_pair)) ''1''
             = Some (if j mod 2 = 0 then highlight_color else idle_color)
         \<and> fingerColors ((fire 0 ^^ j) (selectRandomFinger example_pair)) ''2''
             = Some (if j mod 2 = 1 then highlight_color else idle_color)"
proof -
  have s: "(fire 0 ^^ j) (selectRandomFinger example_pair) = cycling example_pair j"
    using assms by (intro run_cycling example_pair_fresh) (simp add: example_pair_ticks)
  have z: "nextTimerId example_pair = 0" "now example_pair = 0" by (simp_all add: example_pair_eq)
  have j: "0 < j" using assms by simp
  note d = example_pair_ids [THEN conjunct2, THEN conjunct2, THEN conjunct1]
  have l: "length (filter active (fingers example_pair)) = 2" using example_pair_ids by simp
  have "fingerColors (cycling example_pair j) ''1''
            = Some (if 0 = j mod 2 then highlight_color else idle_color)"
    using cycling_colors [OF d _ j, of 0] example_pair_ids by simp
  then have c0: "fingerColors (cycling example_pair j) ''1''
            = Some (if j mod 2 = 0 then highlight_color else idle_color)"
    by (cases "j mod 2 = 0") simp_all
  have "fingerColors (cycling example_pair j) ''2''
            = Some (if 1 = j mod 2 then highlight_color else idle_color)"
    using cycling_colors [OF d _ j, of 1] example_pair_ids by simp
  then have c1: "fingerColors (cycling example_pair j) ''2''
            = Some (if j mod 2 = 1 then highlight_color else idle_color)"
    by (cases "j mod 2 = 1") simp_all
  have f: "now (cycling example_pair j) = 200 * j"
    "currentIndex 0 (cycling example_pair j) = Some (j mod 2)"
    using cycling_fields [of example_pair j] by (simp_all add: z l)
  show ?thesis unfolding s by (intro conjI) (rule f c0 c1)+
qed

section \<open>A session begun before the last one has ended\<close>

lemma new_finger_simps: "active (new_finger t)" "finger_id (new_finger t) = touch_key t"
  by (simp_all add: new_finger_def)

lemma paint_single:
  "paint c h [f] = [finger_id f \<mapsto> (if h = 0 then c else idle_color)]"
  by (auto simp: paint_def paint_entry_def)

lemma example_stale_eq:
  "example_stale =
     \<lparr>fingers = [new_finger example_touch], selecting = False, winnerIndex = None,
      fingerColors = [''1'' \<mapsto> idle_color],
      gameAreaDimensions = \<lparr>areaX = 0, areaY = 0, width = 400, height = 800, bottom = 800\<rparr>,
      cues = [TapSound, WinnerSound, TapSound], now = 2600,
      timers = [\<lparr>timerId = 4, due = 2700, repeat = Some 200,
                  callback = CycleTick [new_finger example_touch] 0\<rparr>,
                \<lparr>timerId = 5, due = 3100, repeat = None,
                  callback = Outcome [new_finger example_touch] 4\<rparr>],
      nextTimerId = 6, scheduler = RequestOrder\<rparr>"
proof -
  have b: "(fire 0 ^^ 9) (selectRandomFinger example_board) = blinking example_board 0 6"
    using run_blinking [OF example_board_fresh, of 0 6] by (simp add: example_board_ticks)
  have v: "valid_touch w example_touch"
    if "gameAreaDimensions w = gameAreaDimensions example_board" for w
    using example_valid [OF that] by simp
  define a where "a = handleRestart (elapse 100 (blinking example_board 0 6))"
  have a: "a = \<lparr>fingers = [], selecting = False, winnerIndex = None, fingerColors = Map.empty,
      gameAreaDimensions = \<lparr>areaX = 0, areaY = 0, width = 400, height = 800, bottom = 800\<rparr>,
      cues = [TapSound, WinnerSound], now = 2500,
      timers = [\<lparr>timerId = 3, due = 2600, repeat = None, callback = SessionEnd\<rparr>],
      nextTimerId = 4, scheduler = RequestOrder\<rparr>"
    by (simp add: a_def handleRestart_def elapse_def blinking_def Let_def example_ids)
       (simp add: example_board_eq)
  have g: "gameAreaDimensions a = gameAreaDimensions example_board"
    by (simp add: a example_board_eq)
  define c where "c = onPanResponderGrant [example_touch] a"
  have c: "c = \<lparr>fingers = [new_finger example_touch], selecting = False, winnerIndex = None,
      fingerColors = [''1'' \<mapsto> idle_color],
      gameAreaDimensions = \<lparr>areaX = 0, areaY = 0, width = 400, height = 800, bottom = 800\<rparr>,
      cues = [TapSound, WinnerSound, TapSound], now = 2500,
      timers = [\<lparr>timerId = 3, due = 2600, repeat = None, callback = SessionEnd\<rparr>],
      nextTimerId = 4, scheduler = RequestOrder\<rparr>"
    unfolding c_def using v [OF g]
    by (simp add: onPanResponderGrant_def Let_def playTapSound_def set_idle_def
        example_touch_key)
       (simp add: a)
  have "example_stale = fire 0 (selectRandomFinger c)"
    by (simp add: example_stale_def run_def b c_def a_def)
  then show ?thesis
    by (simp add: c selectRandomFinger_def Let_def new_finger_simps setInterval_def
        setTimeout_def selectionSpeed_def numberOfCycles_def fire_def clearInterval_def)
qed


lemma example_stale_pick:
  "selectRandomFinger example_stale =
     \<lparr>fingers = [new_finger example_touch], selecting = True, winnerIndex = None,
      fingerColors = [''1'' \<mapsto> idle_color],
      gameAreaDimensions = \<lparr>areaX = 0, areaY = 0, width = 400, height = 800, bottom = 800\<rparr>,
      cues = [TapSound, WinnerSound, TapSound], now = 2600,
      timers = [\<lparr>timerId = 4, due = 2700, repeat = Some 200, callback = CycleTick [new_finger example_touch] 0\<rparr>,
                \<lparr>timerId = 5, due = 3100, repeat = None, callback = Outcome [new_finger example_touch] 4\<rparr>,
                \<lparr>timerId = 6, due = 2800, repeat = Some 200, callback = CycleTick [new_finger example_touch] 0\<rparr>,
                \<lparr>timerId = 7, due = 3200, repeat = None, callback = Outcome [new_finger example_touch] 6\<rparr>],
      nextTimerId = 8, scheduler = RequestOrder\<rparr>"
  by (simp add: example_stale_eq selectRandomFinger_def Let_def new_finger_simps
      setInterval_def setTimeout_def selectionSpeed_def numberOfCycles_def)

lemma example_stale_run1:
  "(fire 0 ^^ 1) (selectRandomFinger example_stale) =
     \<lparr>fingers = [new_finger example_touch], selecting = True, winnerIndex = None,
      fingerColors = [''1'' \<mapsto> highlight_color],
      gameAreaDimensions = \<lparr>areaX = 0, areaY = 0, width = 400, height = 800, bottom = 800\<rparr>,
      cues = [TapSound, WinnerSound, TapSound], now = 2700,
      timers = [\<lparr>timerId = 5, due = 3100, repeat = None, callback = Outcome [new_finger example_touch] 4\<rparr>,
                \<lparr>timerId = 6, due = 2800, repeat = Some 200, callback = CycleTick [new_finger example_touch] 0\<rparr>,
                \<lparr>timerId = 7, due = 3200, repeat = None, callback = Outcome [new_finger example_touch] 6\<rparr>,
                \<lparr>timerId = 4, due = 2900, repeat = Some 200, callback = CycleTick [new_finger example_touch] 0\<rparr>],
      nextTimerId = 8, scheduler = RequestOrder\<rparr>"
proof -
  have e: "(fire 0 ^^ 1) (selectRandomFinger example_stale)
        = fire 0 ((fire 0 ^^ 0) (selectRandomFinger example_stale))"
    by (simp add: numeral_eq_Suc)
  have p: "(fire 0 ^^ 0) (selectRandomFinger example_stale) =
     \<lparr>fingers = [new_finger example_touch], selecting = True, winnerIndex = None,
      fingerColors = [''1'' \<mapsto> idle_color],
      gameAreaDimensions = \<lparr>areaX = 0, areaY = 0, width = 400, height = 800, bottom = 800\<rparr>,
      cues = [TapSound, WinnerSound, TapSound], now = 2600,
      timers = [\<lparr>timerId = 4, due = 2700, repeat = Some 200, callback = CycleTick [new_finger example_touch] 0\<rparr>,
                \<lparr>timerId = 5, due = 3100, repeat = None, callback = Outcome [new_finger example_touch] 4\<rparr>,
                \<lparr>timerId = 6, due = 2800, repeat = Some 200, callback = CycleTick [new_finger example_touch] 0\<rparr>,
                \<lparr>timerId = 7, due = 3200, repeat = None, callback = Outcome [new_finger example_touch] 6\<rparr>],
      nextTimerId = 8, scheduler = RequestOrder\<rparr>"
    by (simp add: example_stale_pick)
  show ?thesis unfolding e p
    by (simp add: fire_def Let_def clearInterval_def reschedule_def updateFingerColors_def
        paint_single new_finger_simps example_touch_key playWinnerSound_def nth_opt_def
        example_randomIndex setInterval_def setTimeout_def)
qed

lemma example_stale_run2:
  "(fire 0 ^^ 2) (selectRandomFinger example_stale) =
     \<lparr>fingers = [new_finger example_touch], selecting = True, winnerIndex = None,
      fingerColors = [''1'' \<mapsto> highlight_color],
      gameAreaDimensions = \<lparr>areaX = 0, areaY = 0, width = 400, height = 800, bottom = 800\<rparr>,
      cues = [TapSound, WinnerSound, TapSound], now = 2800,
      timers = [\<lparr>timerId = 5, due = 3100, repeat = None, callback = Outcome [new_finger example_touch] 4\<rparr>,
                \<lparr>timerId = 7, due = 3200, repeat = None, callback = Outcome [new_finger example_touch] 6\<rparr>,
                \<lparr>timerId = 4, due = 2900, repeat = Some 200, callback = CycleTick [new_finger example_touch] 0\<rparr>,
                \<lparr>timerId = 6, due = 3000, repeat = Some 200, callback = CycleTick [new_finger example_touch] 0\<rparr>],
      nextTimerId = 8, scheduler = RequestOrder\<rparr>"
proof -
  have e: "(fire 0 ^^ 2) (selectRandomFinger example_stale)
        = fire 0 ((fire 0 ^^ 1) (selectRandomFinger example_stale))"
    by (simp add: numeral_eq_Suc)
  have p: "(fire 0 ^^ 1) (selectRandomFinger example_stale) =
     \<lparr>fingers = [new_finger example_touch], selecting = True, winnerIndex = None,
      fingerColors = [''1'' \<mapsto> highlight_color],
      gameAreaDimensions = \<lparr>areaX = 0, areaY = 0, width = 400, height = 800, bottom = 800\<rparr>,
      cues = [TapSound, WinnerSound, TapSound], now = 2700,
      timers = [\<lparr>timerId = 5, due = 3100, repeat = None, callback = Outcome [new_finger example_touch] 4\<rparr>,
                \<lparr>timerId = 6, due = 2800, repeat = Some 200, callback = CycleTick [new_finger example_touch] 0\<rparr>,
                \<lparr>timerId = 7, due = 3200, repeat = None, callback = Outcome [new_finger example_touch] 6\<rparr>,
                \<lparr>timerId = 4, due = 2900, repeat = Some 200, callback = CycleTick [new_finger example_touch] 0\<rparr>],
      nextTimerId = 8, scheduler = RequestOrder\<rparr>"
    by (rule example_stale_run1)
  show ?thesis unfolding e p
    by (simp add: fire_def Let_def clearInterval_def reschedule_def updateFingerColors_def
        paint_single new_finger_simps example_touch_key playWinnerSound_def nth_opt_def
        example_randomIndex setInterval_def setTimeout_def)
qed

lemma example_stale_run3:
  "(fire 0 ^^ 3) (selectRandomFinger example_stale) =
     \<lparr>fingers = [new_finger example_touch], selecting = True, winnerIndex = None,
      fingerColors = [''1'' \<mapsto> highlight_color],
      gameAreaDimensions = \<lparr>areaX = 0, areaY = 0, width = 400, height = 800, bottom = 800\<rparr>,
      cues = [TapSound, WinnerSound, TapSound], now = 2900,
      timers = [\<lparr>timerId = 5, due = 3100, repeat = None, callback = Outcome [new_finger example_touch] 4\<rparr>,
                \<lparr>timerId = 7, due = 3200, repeat = None, callback = Outcome [new_finger example_touch] 6\<rparr>,
                \<lparr>timerId = 6, due = 3000, repeat = Some 200, callback = CycleTick [new_finger example_touch] 0\<rparr>,
                \<lparr>timerId = 4, due = 3100, repeat = Some 200, callback = CycleTick [new_finger example_touch] 0\<rparr>],
      nextTimerId = 8, scheduler = RequestOrder\<rparr>"
proof -
  have e: "(fire 0 ^^ 3) (selectRandomFinger example_stale)
        = fire 0 ((fire 0 ^^ 2) (selectRandomFinger example_stale))"
    by (simp add: numeral_eq_Suc)
  have p: "(fire 0 ^^ 2) (selectRandomFinger example_stale) =
     \<lparr>fingers = [new_finger example_touch], selecting = True, winnerIndex = None,
      fingerColors = [''1'' \<mapsto> highlight_color],
      gameAreaDimensions = \<lparr>areaX = 0, areaY = 0, width = 400, height = 800, bottom = 800\<rparr>,
      cues = [TapSound, WinnerSound, TapSound], now = 2800,
      timers = [\<lparr>timerId = 5, due = 3100, repeat = None, callback = Outcome [new_finger example_touch] 4\<rparr>,
                \<lparr>timerId = 7, due = 3200, repeat = None, callback = Outcome [new_finger example_touch] 6\<rparr>,
                \<lparr>timerId = 4, due = 2900, repeat = Some 200, callback = CycleTick [new_finger example_touch] 0\<rparr>,
                \<lparr>timerId = 6, due = 3000, repeat = Some 200, callback = CycleTick [new_finger example_touch] 0\<rparr>],
      nextTimerId = 8, scheduler = RequestOrder\<rparr>"
    by (rule example_stale_run2)
  show ?thesis unfolding e p
    by (simp add: fire_def Let_def clearInterval_def reschedule_def updateFingerColors_def
        paint_single new_finger_simps example_touch_key playWinnerSound_def nth_opt_def
        example_randomIndex setInterval_def setTimeout_def)
qed

lemma example_stale_run4:
  "(fire 0 ^^ 4) (selectRandomFinger example_stale) =
     \<lparr>fingers = [new_finger example_touch], selecting = True, winnerIndex = None,
      fingerColors = [''1'' \<mapsto> highlight_color],
      gameAreaDimensions = \<lparr>areaX = 0, areaY = 0, width = 400, height = 800, bottom = 800\<rparr>,
      cues = [TapSound, WinnerSound, TapSound], now = 3000,
      timers = [\<lparr>timerId = 5, due = 3100, repeat = None, callback = Outcome [new_finger example_touch] 4\<rparr>,
                \<lparr>timerId = 7, due = 3200, repeat = None, callback = Outcome [new_finger example_touch] 6\<rparr>,
                \<lparr>timerId = 4, due = 3100, repeat = Some 200, callback = CycleTick [new_finger example_touch] 0\<rparr>,
                \<lparr>timerId = 6, due = 3200, repeat = Some 200, callback = CycleTick [new_finger example_touch] 0\<rparr>],
      nextTimerId = 8, scheduler = RequestOrder\<rparr>"
proof -
  have e: "(fire 0 ^^ 4) (selectRandomFinger example_stale)
        = fire 0 ((fire 0 ^^ 3) (selectRandomFinger example_stale))"
    by (simp add: numeral_eq_Suc)
  have p: "(fire 0 ^^ 3) (selectRandomFinger example_stale) =
     \<lparr>fingers = [new_finger example_touch], selecting = True, winnerIndex = None,
      fingerColors = [''1'' \<mapsto> highlight_color],
      gameAreaDimensions = \<lparr>areaX = 0, areaY = 0, width = 400, height = 800, bottom = 800\<rparr>,
      cues = [TapSound, WinnerSound, TapSound], now = 2900,
      timers = [\<lparr>timerId = 5, due = 3100, repeat = None, callback = Outcome [new_finger example_touch] 4\<rparr>,
                \<lparr>timerId = 7, due = 3200, repeat = None, callback = Outcome [new_finger example_touch] 6\<rparr>,
                \<lparr>timerId = 6, due = 3000, repeat = Some 200, callback = CycleTick [new_finger example_touch] 0\<rparr>,
                \<lparr>timerId = 4, due = 3100, repeat = Some 200, callback = CycleTick [new_finger example_touch] 0\<rparr>],
      nextTimerId = 8, scheduler = RequestOrder\<rparr>"
    by (rule example_stale_run3)
  show ?thesis unfolding e p
    by (simp add: fire_def Let_def clearInterval_def reschedule_def updateFingerColors_def
        paint_single new_finger_simps example_touch_key playWinnerSound_def nth_opt_def
        example_randomIndex setInterval_def setTimeout_def)
qed

lemma example_stale_run5:
  "(fire 0 ^^ 5) (selectRandomFinger example_stale) =
     \<lparr>fingers = [new_finger example_touch], selecting = True, winnerIndex = Some 0,
      fingerColors = [''1'' \<mapsto> winner_color],
      gameAreaDimensions = \<lparr>areaX = 0, areaY = 0, width = 400, height = 800, bottom = 800\<rparr>,
      cues = [TapSound, WinnerSound, TapSound, WinnerSound], now = 3100,
      timers = [\<lparr>timerId = 7, due = 3200, repeat = None, callback = Outcome [new_finger example_touch] 6\<rparr>,
                \<lparr>timerId = 6, due = 3200, repeat = Some 200, callback = CycleTick [new_finger example_touch] 0\<rparr>,
                \<lparr>timerId = 8, due = 3400, repeat = Some 300, callback = BlinkTick (new_finger example_touch) 0\<rparr>,
                \<lparr>timerId = 9, due = 5100, repeat = None, callback = SessionEnd\<rparr>],
      nextTimerId = 10, scheduler = RequestOrder\<rparr>"
proof -
  have e: "(fire 0 ^^ 5) (selectRandomFinger example_stale)
        = fire 0 ((fire 0 ^^ 4) (selectRandomFinger example_stale))"
    by (simp add: numeral_eq_Suc)
  have p: "(fire 0 ^^ 4) (selectRandomFinger example_stale) =
     \<lparr>fingers = [new_finger example_touch], selecting = True, winnerIndex = None,
      fingerColors = [''1'' \<mapsto> highlight_color],
      gameAreaDimensions = \<lparr>areaX = 0, areaY = 0, width = 400, height = 800, bottom = 800\<rparr>,
      cues = [TapSound, WinnerSound, TapSound], now = 3000,
      timers = [\<lparr>timerId = 5, due = 3100, repeat = None, callback = Outcome [new_finger example_touch] 4\<rparr>,
                \<lparr>timerId = 7, due = 3200, repeat = None, callback = Outcome [new_finger example_touch] 6\<rparr>,
                \<lparr>timerId = 4, due = 3100, repeat = Some 200, callback = CycleTick [new_finger example_touch] 0\<rparr>,
                \<lparr>timerId = 6, due = 3200, repeat = Some 200, callback = CycleTick [new_finger example_touch] 0\<rparr>],
      nextTimerId = 8, scheduler = RequestOrder\<rparr>"
    by (rule example_stale_run4)
  show ?thesis unfolding e p
    by (simp add: fire_def Let_def clearInterval_def reschedule_def updateFingerColors_def
        paint_single new_finger_simps example_touch_key playWinnerSound_def nth_opt_def
        example_randomIndex setInterval_def setTimeout_def)
qed

lemma example_stale_run6:
  "(fire 0 ^^ 6) (selectRandomFinger example_stale) =
     \<lparr>fingers = [new_finger example_touch], selecting = True, winnerIndex = Some 0,
      fingerColors = [''1'' \<mapsto> winner_color],
      gameAreaDimensions = \<lparr>areaX = 0, areaY = 0, width = 400, height = 800, bottom = 800\<rparr>,
      cues = [TapSound, WinnerSound, TapSound, WinnerSound, WinnerSound], now = 3200,
      timers = [\<lparr>timerId = 8, due = 3400, repeat = Some 300, callback = BlinkTick (new_finger example_touch) 0\<rparr>,
                \<lparr>timerId = 9, due = 5100, repeat = None, callback = SessionEnd\<rparr>,
                \<lparr>timerId = 10, due = 3500, repeat = Some 300, callback = BlinkTick (new_finger example_touch) 0\<rparr>,
                \<lparr>timerId = 11, due = 5200, repeat = None, callback = SessionEnd\<rparr>],
      nextTimerId = 12, scheduler = RequestOrder\<rparr>"
proof -
  have e: "(fire 0 ^^ 6) (selectRandomFinger example_stale)
        = fire 0 ((fire 0 ^^ 5) (selectRandomFinger example_stale))"
    by (simp add: numeral_eq_Suc)
  have p: "(fire 0 ^^ 5) (selectRandomFinger example_stale) =
     \<lparr>fingers = [new_finger example_touch], selecting = True, winnerIndex = Some 0,
      fingerColors = [''1'' \<mapsto> winner_color],
      gameAreaDimensions = \<lparr>areaX = 0, areaY = 0, width = 400, height = 800, bottom = 800\<rparr>,
      cues = [TapSound, WinnerSound, TapSound, WinnerSound], now = 3100,
      timers = [\<lparr>timerId = 7, due = 3200, repeat = None, callback = Outcome [new_finger example_touch] 6\<rparr>,
                \<lparr>timerId = 6, due = 3200, repeat = Some 200, callback = CycleTick [new_finger example_touch] 0\<rparr>,
                \<lparr>timerId = 8, due = 3400, repeat = Some 300, callback = BlinkTick (new_finger example_touch) 0\<rparr>,
                \<lparr>timerId = 9, due = 5100, repeat = None, callback = SessionEnd\<rparr>],
      nextTimerId = 10, scheduler = RequestOrder\<rparr>"
    by (rule example_stale_run5)
  show ?thesis unfolding e p
    by (simp add: fire_def Let_def clearInterval_def reschedule_def updateFingerColors_def
        paint_single new_finger_simps example_touch_key playWinnerSound_def nth_opt_def
        example_randomIndex setInterval_def setTimeout_def)
qed

section \<open>The runs of the cycling interval\<close>

text \<open>
  In a session started with no timer pending over a snapshot of \<open>K\<close> contacts with
  distinct ids, with \<open>s j\<close> the state after \<open>j\<close> timer runs: the cycling interval runs
  \<open>ticks w\<close> times, which is \<open>3 K\<close> or \<open>3 K - 1\<close> according to whether the platform
  runs the tick that is due together with the outcome timeout before it or not. Run \<open>j\<close>
  happens at \<open>200 j\<close> after the start, leaves the current index at \<open>j mod K\<close> and the
  interval pending for 200 later, and colours the snapshot entry at the current index with
  the highlight colour and every other snapshot entry idle. The next run is the outcome, at
  \<open>K\<close> times 200 times 3 after the start, and it clears the interval. When the tick runs
  first, every index is reached by at least 3 ticks.
\<close>

lemma cycling_runs:
  fixes w :: game_state and r :: real
  defines "snap \<equiv> filter active (fingers w)"
  defines "K \<equiv> length snap"
  defines "s \<equiv> (\<lambda>j. (fire r ^^ j) (selectRandomFinger w))"
  assumes "fresh w" and "0 \<le> r" and "r < 1" and "distinct (map finger_id snap)"
  shows "3 * K \<le> ticks w + 1 \<and> ticks w \<le> 3 * K
         \<and> (\<forall>j \<le> ticks w.
               now (s j) = now w + 200 * j
               \<and> currentIndex (nextTimerId w) (s j) = Some (j mod K)
               \<and> filter (\<lambda>t. closure_index (callback t) \<noteq> None) (timers (s j))
                   = [\<lparr>timerId = nextTimerId w, due = now w + 200 * (j + 1), repeat = Some 200,
                       callback = CycleTick snap (j mod K)\<rparr>])
         \<and> (\<forall>j. 1 \<le> j \<and> j \<le> ticks w \<longrightarrow>
               (\<forall>p < K. fingerColors (s j) (finger_id (snap ! p))
                          = Some (if p = j mod K then highlight_color else idle_color)))
         \<and> now (s (ticks w + 1)) = now w + K * 200 * 3
         \<and> currentIndex (nextTimerId w) (s (ticks w + 1)) = None
         \<and> (scheduler w = CreationOrder \<longrightarrow>
              (\<forall>i < K. 3 \<le> card {j. 1 \<le> j \<and> j \<le> ticks w
                                    \<and> currentIndex (nextTimerId w) (s j) = Some i}))"
proof -
  have K: "0 < K" using assms(4) by (simp add: fresh_def K_def snap_def)
  have sj: "s j = cycling w j" if "j \<le> ticks w" for j
    unfolding s_def using run_cycling [OF assms(4) that] .
  have so: "s (ticks w + 1) = blinking w r 0"
    unfolding s_def using run_blinking [OF assms(4-6), of 0] by simp
  have a: "3 * K \<le> ticks w + 1" "ticks w \<le> 3 * K"
    using ticks_bounds [OF assms(4)] by (simp_all add: K_def snap_def)
  have b: "\<forall>j \<le> ticks w.
               now (s j) = now w + 200 * j
               \<and> currentIndex (nextTimerId w) (s j) = Some (j mod K)
               \<and> filter (\<lambda>t. closure_index (callback t) \<noteq> None) (timers (s j))
                   = [\<lparr>timerId = nextTimerId w, due = now w + 200 * (j + 1), repeat = Some 200,
                       callback = CycleTick snap (j mod K)\<rparr>]"
  proof (intro allI impI)
    fix j assume "j \<le> ticks w"
    then show "now (s j) = now w + 200 * j
               \<and> currentIndex (nextTimerId w) (s j) = Some (j mod K)
               \<and> filter (\<lambda>t. closure_index (callback t) \<noteq> None) (timers (s j))
                   = [\<lparr>timerId = nextTimerId w, due = now w + 200 * (j + 1), repeat = Some 200,
                       callback = CycleTick snap (j mod K)\<rparr>]"
      unfolding K_def snap_def using cycling_fields [of w j] by (simp only: sj)
  qed
  have d: "distinct (map finger_id (filter active (fingers w)))"
    using assms(7) by (simp add: snap_def)
  have c: "\<forall>j. 1 \<le> j \<and> j \<le> ticks w \<longrightarrow>
               (\<forall>p < K. fingerColors (s j) (finger_id (snap ! p))
                          = Some (if p = j mod K then highlight_color else idle_color))"
  proof (intro allI impI)
    fix j p assume j: "1 \<le> j \<and> j \<le> ticks w" and p: "p < K"
    then have "s j = cycling w j" "0 < j" "p < length (filter active (fingers w))"
      using sj by (simp_all add: K_def snap_def)
    then show "fingerColors (s j) (finger_id (snap ! p))
               = Some (if p = j mod K then highlight_color else idle_color)"
      unfolding K_def snap_def using cycling_colors [OF d, of p j] by (simp only:)
  qed
  have e: "now (s (ticks w + 1)) = now w + K * 200 * 3"
    "currentIndex (nextTimerId w) (s (ticks w + 1)) = None"
    unfolding so by (simp_all add: blinking_fields blinking0_no_cycle K_def snap_def)
  have g: "scheduler w = CreationOrder \<longrightarrow>
              (\<forall>i < K. 3 \<le> card {j. 1 \<le> j \<and> j \<le> ticks w
                                    \<and> currentIndex (nextTimerId w) (s j) = Some i})"
  proof (intro allI impI)
    fix i assume c: "scheduler w = CreationOrder" and i: "i < K"
    have n: "3 * K \<le> ticks w" using c by (simp add: ticks_def numberOfCycles_def K_def snap_def)
    have "{j. 1 \<le> j \<and> j \<le> ticks w \<and> currentIndex (nextTimerId w) (s j) = Some i}
          = {j. 1 \<le> j \<and> j \<le> ticks w \<and> j mod K = i}"
      using b by auto
    then show "3 \<le> card {j. 1 \<le> j \<and> j \<le> ticks w
                           \<and> currentIndex (nextTimerId w) (s j) = Some i}"
      using ticks_at_least_3 [OF K i n] by (simp only:)
  qed
  show ?thesis by (intro conjI) (rule a b c e g)+
qed

section \<open>Reset\<close>

text \<open>
  Claim C5. Reset, in any state, empties the registry and the colour map and clears the
  winner index and the selecting flag. Pick Finger is then held back only by the empty
  registry: after the next touch-start it is disabled exactly when no touch of the batch
  was inside the play surface.
\<close>

theorem handleRestart_clears_all:
  "fingers (handleRestart w) = [] \<and> fingerColors (handleRestart w) = Map.empty
   \<and> winnerIndex (handleRestart w) = None \<and> selecting (handleRestart w) = False
   \<and> (\<forall>ts. pick_disabled (onPanResponderGrant ts (handleRestart w))
             = (filter (valid_touch w) ts = []))"
proof -
  have v: "valid_touch (handleRestart w) = valid_touch w"
    by (rule ext) (simp add: valid_touch_def handleRestart_def)
  have s: "\<not> selecting (handleRestart w)" by (simp add: handleRestart_def)
  have "pick_disabled (onPanResponderGrant ts (handleRestart w))
        = (filter (valid_touch w) ts = [])" for ts
  proof -
    have "fingers (handleRestart w) = []" by (simp add: handleRestart_def)
    then have "fingers (onPanResponderGrant ts (handleRestart w))
               = map new_finger (filter (valid_touch w) ts)"
      using grant_fingers [OF s, of ts] by (simp add: v)
    then show ?thesis
      using grant_selecting [of ts "handleRestart w"] s
      by (simp add: pick_disabled_def new_finger_def comp_def)
  qed
  then show ?thesis by (simp add: handleRestart_def)
qed

theorem handleRestart_clears_all_witness:
  "selecting (selectRandomFinger example_board)
   \<and> fingers (handleRestart (selectRandomFinger example_board)) = []
   \<and> fingerColors (handleRestart (selectRandomFinger example_board)) = Map.empty
   \<and> winnerIndex (handleRestart (selectRandomFinger example_board)) = None
   \<and> selecting (handleRestart (selectRandomFinger example_board)) = False
   \<and> \<not> pick_disabled (onPanResponderGrant [example_touch2]
         (handleRestart (selectRandomFinger example_board)))"
proof -
  have a: "selecting (selectRandomFinger example_board)"
    by (simp add: pick_fresh [OF example_board_fresh] cycling_def Let_def)
  have "gameAreaDimensions (selectRandomFinger example_board) = gameAreaDimensions example_board"
    by (simp add: pick_fresh [OF example_board_fresh] cycling_def Let_def)
  then have b: "valid_touch (selectRandomFinger example_board) example_touch2"
    by (simp add: valid_touch_def isTouchInGameArea_def example_board_eq example_touch2_def)
  show ?thesis
    using a b handleRestart_clears_all [of "selectRandomFinger example_board"] by simp
qed

section \<open>Pick Finger: the guard\<close>

text \<open>
  Claim C4. Pick Finger with no active contact, or while the selecting flag is set, returns
  the state as it is (lemma \<open>pick_noop\<close>). The flag does not stay set for as long as a
  session is in progress, though: Reset cancels no timer, so the session-end timeout of a
  session that was reset runs later and clears the flag of the session begun since. In the
  state \<open>example_stale\<close> the second session, begun at 2500, has its first tick and its
  outcome still pending when that timeout clears the flag at 2600; Pick Finger is enabled,
  it is not a no-op but registers the timers of a third session beside those of the
  second, and both sessions run to their outcome, with a winner cue each, at 3100 and at
  3200.
\<close>

theorem pick_during_session_starts_another:
  "\<not> selecting example_stale \<and> \<not> pick_disabled example_stale
   \<and> now example_stale = 2600
   \<and> timers example_stale
       = [\<lparr>timerId = 4, due = 2700, repeat = Some 200,
            callback = CycleTick [new_finger example_touch] 0\<rparr>,
          \<lparr>timerId = 5, due = 3100, repeat = None,
            callback = Outcome [new_finger example_touch] 4\<rparr>]
   \<and> cues example_stale = [TapSound, WinnerSound, TapSound]
   \<and> selectRandomFinger example_stale \<noteq> example_stale
   \<and> selecting (selectRandomFinger example_stale)
   \<and> map timerId (timers (selectRandomFinger example_stale)) = [4, 5, 6, 7]
   \<and> map (\<lambda>j. now ((fire 0 ^^ j) (selectRandomFinger example_stale))) [5, 6] = [3100, 3200]
   \<and> map (\<lambda>j. cues ((fire 0 ^^ j) (selectRandomFinger example_stale))) [4, 5, 6]
       = [[TapSound, WinnerSound, TapSound],
          [TapSound, WinnerSound, TapSound, WinnerSound],
          [TapSound, WinnerSound, TapSound, WinnerSound, WinnerSound]]"
proof -
  have a: "\<not> selecting example_stale" "now example_stale = 2600"
    "timers example_stale
       = [\<lparr>timerId = 4, due = 2700, repeat = Some 200,
            callback = CycleTick [new_finger example_touch] 0\<rparr>,
          \<lparr>timerId = 5, due = 3100, repeat = None,
            callback = Outcome [new_finger example_touch] 4\<rparr>]"
    "cues example_stale = [TapSound, WinnerSound, TapSound]"
    by (simp_all add: example_stale_eq)
  have f: "fingers example_stale = [new_finger example_touch]" by (simp add: example_stale_eq)
  have b: "\<not> pick_disabled example_stale"
    by (simp add: pick_disabled_def a f new_finger_simps)
  have c: "selecting (selectRandomFinger example_stale)"
    "map timerId (timers (selectRandomFinger example_stale)) = [4, 5, 6, 7]"
    by (simp_all add: example_stale_pick)
  have d: "selectRandomFinger example_stale \<noteq> example_stale"
    using a(1) c(1) by auto
  have e: "map (\<lambda>j. now ((fire 0 ^^ j) (selectRandomFinger example_stale))) [5, 6] = [3100, 3200]"
    by (simp add: example_stale_run5 example_stale_run6)
  have g: "map (\<lambda>j. cues ((fire 0 ^^ j) (selectRandomFinger example_stale))) [4, 5, 6]
       = [[TapSound, WinnerSound, TapSound],
          [TapSound, WinnerSound, TapSound, WinnerSound],
          [TapSound, WinnerSound, TapSound, WinnerSound, WinnerSound]]"
    by (simp add: example_stale_run4 example_stale_run5 example_stale_run6)
  show ?thesis by (intro conjI) (rule a b c d e g)+
qed

section \<open>Touch move\<close>

text \<open>
  Claim C8. While a session is selecting, a move event leaves the state as it is.
  Otherwise only the registry changes, entry by entry: every field but the coordinate
  keeps its value; the coordinate becomes that of the first touch with the contact's id
  when that touch is inside the play surface, and the contact is unchanged when that touch
  is outside or no touch has its id.
\<close>

theorem onPanResponderMove_effect:
  "(selecting w \<longrightarrow> onPanResponderMove ts w = w)
   \<and> (\<not> selecting w \<longrightarrow>
        onPanResponderMove ts w = w\<lparr>fingers := fingers (onPanResponderMove ts w)\<rparr>
        \<and> length (fingers (onPanResponderMove ts w)) = length (fingers w)
        \<and> (\<forall>i < length (fingers w).
              finger_id (fingers (onPanResponderMove ts w) ! i) = finger_id (fingers w ! i)
              \<and> color (fingers (onPanResponderMove ts w) ! i) = color (fingers w ! i)
              \<and> scale (fingers (onPanResponderMove ts w) ! i) = scale (fingers w ! i)
              \<and> rotation (fingers (onPanResponderMove ts w) ! i) = rotation (fingers w ! i)
              \<and> active (fingers (onPanResponderMove ts w) ! i) = active (fingers w ! i)
              \<and> dots (fingers (onPanResponderMove ts w) ! i) = dots (fingers w ! i)
              \<and> (case find (\<lambda>t. touch_key t = finger_id (fingers w ! i)) ts of
                    None \<Rightarrow> fingers (onPanResponderMove ts w) ! i = fingers w ! i
                  | Some t \<Rightarrow>
                      if valid_touch w t
                      then finger_x (fingers (onPanResponderMove ts w) ! i) = pageX t
                           \<and> finger_y (fingers (onPanResponderMove ts w) ! i) = pageY t
                      else fingers (onPanResponderMove ts w) ! i = fingers w ! i)))"
  by (simp add: onPanResponderMove_def move_finger_def split: option.split)

theorem onPanResponderMove_effect_witness:
  "\<not> selecting example_board
   \<and> map (\<lambda>f. (finger_id f, finger_x f, finger_y f))
        (fingers (onPanResponderMove [example_moved] example_board)) = [(''1'', 120, 130)]
   \<and> fingers (onPanResponderMove [example_strayed] example_board) = fingers example_board
   \<and> fingers (onPanResponderMove [example_touch2] example_board) = fingers example_board
   \<and> selecting (selectRandomFinger example_board)
   \<and> onPanResponderMove [example_moved] (selectRandomFinger example_board)
       = selectRandomFinger example_board"
proof -
  have k: "touch_key example_moved = ''1''" "touch_key example_strayed = ''1''"
    using example_touch_key
    by (simp_all add: touch_key_def example_moved_def example_strayed_def example_touch_def)
  have v: "valid_touch example_board example_moved" "\<not> valid_touch example_board example_strayed"
    by (simp_all add: valid_touch_def isTouchInGameArea_def example_board_eq example_moved_def
        example_strayed_def)
  have f: "fingers example_board = [new_finger example_touch]" "\<not> selecting example_board"
    by (simp_all add: example_board_eq)
  have i: "finger_id (new_finger example_touch) = ''1''"
    by (simp add: new_finger_def example_touch_key)
  have s: "selecting (selectRandomFinger example_board)"
    by (simp add: pick_fresh [OF example_board_fresh] cycling_def Let_def)
  let ?M = "onPanResponderMove [example_moved] example_board"
  have m: "length (fingers ?M) = 1"
    using onPanResponderMove_effect [where ts = "[example_moved]" and w = example_board] f by simp
  then obtain g where g: "fingers ?M = [g]"
    by (cases "fingers ?M") auto
  have "\<forall>i < length (fingers example_board).
          finger_id (fingers ?M ! i) = finger_id (fingers example_board ! i)
          \<and> (case find (\<lambda>t. touch_key t = finger_id (fingers example_board ! i)) [example_moved] of
                None \<Rightarrow> fingers ?M ! i = fingers example_board ! i
              | Some t \<Rightarrow>
                  if valid_touch example_board t
                  then finger_x (fingers ?M ! i) = pageX t \<and> finger_y (fingers ?M ! i) = pageY t
                  else fingers ?M ! i = fingers example_board ! i)"
    using onPanResponderMove_effect [where ts = "[example_moved]" and w = example_board] f by simp
  then have "finger_id g = ''1'' \<and> finger_x g = 120 \<and> finger_y g = 130"
    using f g k v i by (simp add: example_moved_def)
  then have 1: "map (\<lambda>f. (finger_id f, finger_x f, finger_y f)) (fingers ?M) = [(''1'', 120, 130)]"
    using g by simp
  have "length (fingers (onPanResponderMove [example_strayed] example_board)) = 1
        \<and> fingers (onPanResponderMove [example_strayed] example_board) ! 0
            = new_finger example_touch"
    using onPanResponderMove_effect [where ts = "[example_strayed]" and w = example_board] f k v i
    by simp
  then have 2: "fingers (onPanResponderMove [example_strayed] example_board) = fingers example_board"
    using f by (simp add: singleton_nth)
  have "length (fingers (onPanResponderMove [example_touch2] example_board)) = 1
        \<and> fingers (onPanResponderMove [example_touch2] example_board) ! 0
            = new_finger example_touch"
    using onPanResponderMove_effect [where ts = "[example_touch2]" and w = example_board] f i
    by (simp add: example_touch2_key)
  then have 3: "fingers (onPanResponderMove [example_touch2] example_board) = fingers example_board"
    using f by (simp add: singleton_nth)
  have 4: "onPanResponderMove [example_moved] (selectRandomFinger example_board)
           = selectRandomFinger example_board"
    using onPanResponderMove_effect [where ts = "[example_moved]" and w = "selectRandomFinger example_board"] s
    by simp
  show ?thesis using 1 2 3 4 f s by simp
qed

section \<open>Touch start\<close>

text \<open>
  Claim C2, as amended: for a batch of touch-start events handled while no selection
  session is in progress, the new registry is the old one without its inactive entries
  and without the entries whose id a touch of the batch inside the play surface has,
  followed by one new contact for each such touch, in order; so a batch on an empty
  registry leaves as many contacts as it has touches inside the play surface, and a touch
  outside adds none. A touch is inside when it lies in the measured rectangle and above
  the strip of 70 at its bottom. A new contact has the touch's key and coordinate,
  scale 1, rotation 0 and 8 dots, dot \<open>i\<close> at angle \<open>i\<close> times a
  fixed step (2 \<open>Math.PI\<close> / 8) and at distance 95.
\<close>

theorem onPanResponderGrant_registers:
  assumes "\<not> selecting w"
  shows "fingers (onPanResponderGrant ts w) =
           filter (\<lambda>f. finger_id f \<notin> touch_key ` {t \<in> set ts. valid_touch w t} \<and> active f)
             (fingers w)
           @ map new_finger (filter (valid_touch w) ts)
         \<and> (fingers w = [] \<longrightarrow>
              length (fingers (onPanResponderGrant ts w)) = length (filter (valid_touch w) ts))
         \<and> (\<forall>t. valid_touch w t =
                  (areaX (gameAreaDimensions w) \<le> pageX t
                   \<and> pageX t \<le> areaX (gameAreaDimensions w) + width (gameAreaDimensions w)
                   \<and> areaY (gameAreaDimensions w) \<le> pageY t
                   \<and> pageY t \<le> bottom (gameAreaDimensions w)
                   \<and> pageY t < bottom (gameAreaDimensions w) - 70))
         \<and> (\<forall>t. finger_id (new_finger t) = touch_key t
                 \<and> finger_x (new_finger t) = pageX t \<and> finger_y (new_finger t) = pageY t
                 \<and> scale (new_finger t) = 1 \<and> rotation (new_finger t) = 0
                 \<and> active (new_finger t)
                 \<and> length (dots (new_finger t)) = 8
                 \<and> (\<forall>i<8. angle (dots (new_finger t) ! i) = real i * (2 * Math_PI / 8)
                           \<and> distance (dots (new_finger t) ! i) = 95))"
proof -
  have a: "fingers (onPanResponderGrant ts w) =
           filter (\<lambda>f. finger_id f \<notin> touch_key ` {t \<in> set ts. valid_touch w t} \<and> active f)
             (fingers w)
           @ map new_finger (filter (valid_touch w) ts)"
    using grant_fingers [OF assms] .
  have b: "fingers w = [] \<longrightarrow>
           length (fingers (onPanResponderGrant ts w)) = length (filter (valid_touch w) ts)"
    using a by simp
  have c: "valid_touch w t =
             (areaX (gameAreaDimensions w) \<le> pageX t
              \<and> pageX t \<le> areaX (gameAreaDimensions w) + width (gameAreaDimensions w)
              \<and> areaY (gameAreaDimensions w) \<le> pageY t
              \<and> pageY t \<le> bottom (gameAreaDimensions w)
              \<and> pageY t < bottom (gameAreaDimensions w) - 70)" for t
    by (simp add: valid_touch_def isTouchInGameArea_def)
  have d: "finger_id (new_finger t) = touch_key t
           \<and> finger_x (new_finger t) = pageX t \<and> finger_y (new_finger t) = pageY t
           \<and> scale (new_finger t) = 1 \<and> rotation (new_finger t) = 0
           \<and> active (new_finger t)" for t
    by (simp add: new_finger_def)
  show ?thesis using a b c d new_finger_dots by blast
qed

theorem onPanResponderGrant_registers_witness:
  "\<not> selecting example_board
   \<and> map finger_id (fingers example_board) = [''1'']
   \<and> map (\<lambda>f. (finger_id f, finger_x f, finger_y f, scale f, rotation f))
        (fingers (onPanResponderGrant [example_moved, example_low, example_touch2] example_board))
      = [(''1'', 120, 130, 1, 0), (''2'', 200, 200, 1, 0)]
   \<and> angle (dots (new_finger example_touch) ! 3) = 3 * (2 * Math_PI / 8)"
proof -
  have s: "\<not> selecting example_board" by (simp add: example_board_eq)
  have v: "filter (valid_touch example_board) [example_moved, example_low, example_touch2]
           = [example_moved, example_touch2]"
    using example_valid [of example_board] by simp
  have i: "map finger_id (fingers example_board) = [''1'']"
    by (simp add: example_board_eq new_finger_def example_touch_key)
  let ?ts = "[example_moved, example_low, example_touch2]"
  have "{t \<in> set ?ts. valid_touch example_board t} = set (filter (valid_touch example_board) ?ts)"
    by (simp only: set_filter)
  then have k: "touch_key ` {t \<in> set ?ts. valid_touch example_board t} = {''1'', ''2''}"
    using example_keys by (simp only: v) (simp add: example_touch2_key)
  have fb: "fingers example_board = [new_finger example_touch]"
    by (simp add: example_board_eq)
  have fi: "finger_id (new_finger example_touch) = ''1''"
    by (simp add: new_finger_def example_touch_key)
  have "fingers (onPanResponderGrant ?ts example_board) =
           filter (\<lambda>f. finger_id f \<notin> touch_key ` {t \<in> set ?ts. valid_touch example_board t}
                       \<and> active f) (fingers example_board)
           @ map new_finger (filter (valid_touch example_board) ?ts)"
    using onPanResponderGrant_registers [OF s, of ?ts] by blast
  then have "fingers (onPanResponderGrant ?ts example_board)
        = [new_finger example_moved, new_finger example_touch2]"
    by (simp only: k v fb) (simp add: fi)
  moreover have "angle (dots (new_finger example_touch) ! 3) = 3 * (2 * Math_PI / 8)"
    using onPanResponderGrant_registers [OF s, of "[]"] by simp
  moreover have "map (\<lambda>f. (finger_id f, finger_x f, finger_y f, scale f, rotation f))
                  [new_finger example_moved, new_finger example_touch2]
                 = [(''1'', 120, 130, 1, 0), (''2'', 200, 200, 1, 0)]"
    by (simp add: new_finger_def example_keys example_touch2_key)
       (simp add: example_moved_def example_touch2_def)
  ultimately show ?thesis using s i by simp
qed

text \<open>
  The claim as stated fails while a session is selecting: the handler returns at once,
  and a touch inside the play surface creates no entry.
\<close>

theorem grant_while_selecting_counterexample:
  "selecting (selectRandomFinger example_board)
   \<and> valid_touch (selectRandomFinger example_board) example_touch2
   \<and> touch_key example_touch2 = ''2''
   \<and> map finger_id (fingers (onPanResponderGrant [example_touch2]
        (selectRandomFinger example_board))) = [''1'']"
proof -
  have "onPanResponderGrant [example_touch2] (selectRandomFinger example_board)
        = selectRandomFinger example_board"
    using example_cycling_fields by (simp add: onPanResponderGrant_def)
  then show ?thesis
    using example_cycling_fields example_valid [of "selectRandomFinger example_board"]
    by (simp add: example_touch2_key example_board_eq new_finger_def example_touch_key)
qed

text \<open>
  Claim C10, as amended: a touch-start inside the play surface that is handled while no
  selection session is in progress writes the idle colour under the touch's key in the
  colour map, whatever was there; the contact is then drawn in the idle colour with the
  plain white border of width 4, also when its key was a winner's before.
\<close>

theorem onPanResponderGrant_idle_color:
  assumes "\<not> selecting w" and "t \<in> set ts" and "valid_touch w t"
  shows "fingerColors (onPanResponderGrant ts w) (touch_key t) = Some idle_color
         \<and> backgroundColor (onPanResponderGrant ts w) (touch_key t) = idle_color
         \<and> getBorderColor (onPanResponderGrant ts w) (touch_key t) = ''white''
         \<and> getBorderWidth (onPanResponderGrant ts w) (touch_key t) = 4"
proof -
  have "fingerColors (onPanResponderGrant ts w) (touch_key t) = Some idle_color"
    using assms grant_colors [OF assms(1), of ts "touch_key t"] by auto
  then show ?thesis using border_idle by blast
qed

theorem onPanResponderGrant_idle_color_witness:
  "\<not> selecting ((fire 0 ^^ 10) (selectRandomFinger example_board))
   \<and> example_touch \<in> set [example_touch]
   \<and> valid_touch ((fire 0 ^^ 10) (selectRandomFinger example_board)) example_touch
   \<and> fingerColors ((fire 0 ^^ 10) (selectRandomFinger example_board)) ''1'' = Some winner_color
   \<and> getBorderColor ((fire 0 ^^ 10) (selectRandomFinger example_board)) ''1'' = ''#ffcc00''
   \<and> fingerColors (onPanResponderGrant [example_touch]
        ((fire 0 ^^ 10) (selectRandomFinger example_board))) ''1'' = Some idle_color
   \<and> getBorderColor (onPanResponderGrant [example_touch]
        ((fire 0 ^^ 10) (selectRandomFinger example_board))) ''1'' = ''white''"
proof -
  let ?w = "(fire 0 ^^ 10) (selectRandomFinger example_board)"
  have w: "?w = finished example_board 0" using example_run by simp
  have s: "\<not> selecting ?w" unfolding w using example_finished_fields by simp
  have v: "valid_touch ?w example_touch"
    unfolding w using example_finished_fields example_valid [of "finished example_board 0"]
    by simp
  have c: "fingerColors ?w ''1'' = Some winner_color"
    unfolding w using example_finished_fields by simp
  have m: "example_touch \<in> set [example_touch]" by simp
  show ?thesis
    using s v c m border_winner [OF c] onPanResponderGrant_idle_color [OF s m v]
    unfolding example_touch_key by simp
qed

text \<open>
  The claim as stated fails while a session is selecting: after the outcome and before
  the session ends the winner's key keeps its winner colour and border when a touch with
  that key starts inside the play surface.
\<close>

theorem grant_while_blinking_counterexample:
  "selecting ((fire 0 ^^ 3) (selectRandomFinger example_board))
   \<and> valid_touch ((fire 0 ^^ 3) (selectRandomFinger example_board)) example_touch
   \<and> touch_key example_touch = ''1''
   \<and> fingerColors (onPanResponderGrant [example_touch]
        ((fire 0 ^^ 3) (selectRandomFinger example_board))) ''1'' = Some winner_color
   \<and> getBorderColor (onPanResponderGrant [example_touch]
        ((fire 0 ^^ 3) (selectRandomFinger example_board))) ''1'' = ''#ffcc00''"
proof -
  let ?w = "(fire 0 ^^ 3) (selectRandomFinger example_board)"
  have w: "?w = blinking example_board 0 0" using example_run by simp
  have s: "selecting ?w" unfolding w using example_blinking_fields [of 0] by simp
  have v: "valid_touch ?w example_touch"
    unfolding w using example_blinking_fields [of 0] example_valid [of "blinking example_board 0 0"]
    by simp
  have c: "fingerColors ?w ''1'' = Some winner_color"
    unfolding w using example_blinking_fields [of 0] by simp
  have g: "onPanResponderGrant [example_touch] ?w = ?w"
    using s by (simp add: onPanResponderGrant_def)
  show ?thesis unfolding g using s v c border_winner [OF c] example_touch_key by simp
qed

section \<open>The registry invariant\<close>

text \<open>
  Claim C9. After any sequence of events from the initial state every contact in the
  registry is active, so filtering the registry by the active flag gives the registry
  itself: a new contact is active, the start handler keeps only active entries, the move
  handler keeps the flag, Reset empties the registry, and nothing else writes the
  registry.
\<close>

theorem registry_all_active:
  "(\<forall>f \<in> set (fingers (run es (initial_state pol))). active f)
   \<and> filter active (fingers (run es (initial_state pol))) = fingers (run es (initial_state pol))
   \<and> (\<forall>t. active (new_finger t))
   \<and> (\<forall>w ts. \<not> selecting w \<longrightarrow> (\<forall>f \<in> set (fingers (onPanResponderGrant ts w)). active f))
   \<and> (\<forall>w ts. list_all active (fingers w) \<longrightarrow>
                list_all active (fingers (onPanResponderMove ts w)))
   \<and> (\<forall>w. fingers (handleRestart w) = [])"
proof -
  have "all_active (initial_state pol)" by (simp add: all_active_def initial_state_def)
  then have a: "all_active (run es (initial_state pol))" by (rule run_all_active)
  then have b: "\<forall>f \<in> set (fingers (run es (initial_state pol))). active f"
    by (simp add: all_active_def list_all_iff)
  then have c: "filter active (fingers (run es (initial_state pol)))
                = fingers (run es (initial_state pol))"
    by simp
  have d: "\<not> selecting w \<longrightarrow> (\<forall>f \<in> set (fingers (onPanResponderGrant ts w)). active f)" for w ts
    using grant_all_active [of w ts] by (simp add: all_active_def list_all_iff)
  have e: "list_all active (fingers w) \<longrightarrow> list_all active (fingers (onPanResponderMove ts w))"
    for w ts
    using step_all_active [of w "Move ts"] by (simp add: all_active_def)
  show ?thesis using b c d e by (simp add: new_finger_def handleRestart_def)
qed

theorem registry_all_active_witness:
  "fingers (run [Measure 0 0 400 800, Grant [example_touch]] (initial_state RequestOrder))
     = [new_finger example_touch]
   \<and> active (new_finger example_touch)
   \<and> filter active
        (fingers (run [Measure 0 0 400 800, Grant [example_touch]] (initial_state RequestOrder)))
      = [new_finger example_touch]"
proof -
  have f: "fingers (run [Measure 0 0 400 800, Grant [example_touch]] (initial_state RequestOrder))
           = [new_finger example_touch]"
    using example_board_eq by (simp add: example_board_def)
  show ?thesis
    using f registry_all_active [of "[Measure 0 0 400 800, Grant [example_touch]]" RequestOrder]
    by simp
qed

section \<open>The outcome\<close>

text \<open>
  Claim C1. Let Pick Finger be pressed in a state \<open>w0\<close> that is not selecting, with a
  snapshot of \<open>K\<close> active contacts (at most \<open>2 ^ 32\<close>, the bound of an array) that
  have distinct ids; it registers the outcome timeout \<open>oc\<close>, which carries this snapshot
  and is due 3 times 200 times \<open>K\<close> later. In a session that starts with no timer
  pending, \<open>oc\<close> is the timer that runs after the last tick. Let \<open>w\<close> be any state in
  which \<open>oc\<close> is the next timer to run, whatever happened to the registry and the colour
  map since the start, and let \<open>Math.random()\<close> return the double of the draw \<open>r\<close> in
  [0, 1). Then the run of \<open>oc\<close> sets the winner index to
  \<open>floor (Math_random r * K)\<close>, the product rounded to a double; the index lies in
  [0, K) and is 0 when \<open>K\<close> is 1. Index \<open>j\<close> is drawn whenever the exact product lies
  between \<open>j\<close> and \<open>(j + 1) (1 - 2 ^ - 53)\<close>, and only if it lies between
  \<open>j (1 - 2 ^ - 53)\<close> and \<open>j + 1\<close>: up to one rounding at each end, every index is
  drawn on an interval of draws of the same width \<open>1 / K\<close>, so the draw is uniform when
  \<open>Math.random()\<close> is. The entry of the snapshot taken at the start that stands at the
  winner index gets the winner colour, every other entry of that snapshot the idle colour,
  every other key of the colour map keeps its colour, one winner cue is triggered, and the
  registry is left as it is.
\<close>

theorem outcome_designates_winner:
  fixes w0 w :: game_state and r :: real
  defines "snap \<equiv> filter active (fingers w0)"
  defines "K \<equiv> length snap"
  defines "oc \<equiv> last (timers (selectRandomFinger w0))"
  defines "i \<equiv> randomIndex r K"
  assumes "\<not> selecting w0" and "snap \<noteq> []" and "distinct (map finger_id snap)"
    and "K \<le> 2 ^ 32" and "earliest (timers w) = Some oc" and "0 \<le> r" and "r < 1"
  shows "callback oc = Outcome snap (nextTimerId w0) \<and> due oc = now w0 + K * 200 * 3
         \<and> (fresh w0 \<longrightarrow>
               earliest (timers ((fire r ^^ ticks w0) (selectRandomFinger w0))) = Some oc)
         \<and> winnerIndex (fire r w) = Some i \<and> 0 \<le> i \<and> i < int K
         \<and> (K = 1 \<longrightarrow> i = 0)
         \<and> (\<forall>j < K.
               (real j \<le> Math_random r * real K
                \<and> Math_random r * real K \<le> (real j + 1) * (1 - 1 / 2 ^ 53) \<longrightarrow> i = int j)
               \<and> (i = int j \<longrightarrow>
                    real j * (1 - 1 / 2 ^ 53) \<le> Math_random r * real K
                    \<and> Math_random r * real K < real j + 1))
         \<and> (\<forall>p < K. fingerColors (fire r w) (finger_id (snap ! p))
                       = Some (if int p = i then winner_color else idle_color))
         \<and> (\<forall>k. k \<notin> finger_id ` set snap \<longrightarrow> fingerColors (fire r w) k = fingerColors w k)
         \<and> cues (fire r w) = cues w @ [WinnerSound]
         \<and> fingers (fire r w) = fingers w
         \<and> now (fire r w) = max (now w) (now w0 + K * 200 * 3)"
proof -
  have K: "0 < K" using assms(6) by (simp add: K_def)
  have l: "oc = \<lparr>timerId = nextTimerId w0 + 1, due = now w0 + K * 200 * 3, repeat = None,
                  callback = Outcome snap (nextTimerId w0)\<rparr>"
    unfolding oc_def K_def snap_def using assms(5,6)
    by (intro pick_outcome_timer) (simp_all add: snap_def)
  have a: "callback oc = Outcome snap (nextTimerId w0)" "due oc = now w0 + K * 200 * 3"
    "repeat oc = None"
    by (simp_all add: l)
  have b: "fresh w0 \<longrightarrow>
             earliest (timers ((fire r ^^ ticks w0) (selectRandomFinger w0))) = Some oc"
  proof
    assume f: "fresh w0"
    have "(fire r ^^ ticks w0) (selectRandomFinger w0) = cycling w0 (ticks w0)"
      using f by (intro run_cycling) simp_all
    then show "earliest (timers ((fire r ^^ ticks w0) (selectRandomFinger w0))) = Some oc"
      unfolding oc_def using earliest_cycling_end [OF f] by (simp only:)
  qed
  note f = fire_outcome_fields [OF assms(9) a(3) a(1) assms(6) assms(10,11)]
  have c: "winnerIndex (fire r w) = Some i" "cues (fire r w) = cues w @ [WinnerSound]"
    "now (fire r w) = max (now w) (now w0 + K * 200 * 3)"
    using f a(2) by (simp_all add: i_def K_def)
  have m: "fingerColors (fire r w) = fingerColors w ++ paint winner_color i snap"
    using f by (simp add: i_def K_def)
  have d: "0 \<le> i" "i < int K"
    unfolding i_def using randomIndex_range [OF assms(10,11) K] by simp_all
  then have e: "K = 1 \<longrightarrow> i = 0" by auto
  have u: "\<forall>j < K.
               (real j \<le> Math_random r * real K
                \<and> Math_random r * real K \<le> (real j + 1) * (1 - 1 / 2 ^ 53) \<longrightarrow> i = int j)
               \<and> (i = int j \<longrightarrow>
                    real j * (1 - 1 / 2 ^ 53) \<le> Math_random r * real K
                    \<and> Math_random r * real K < real j + 1)"
  proof (intro allI impI)
    fix j assume "j < K"
    then show "(real j \<le> Math_random r * real K
                \<and> Math_random r * real K \<le> (real j + 1) * (1 - 1 / 2 ^ 53) \<longrightarrow> i = int j)
               \<and> (i = int j \<longrightarrow>
                    real j * (1 - 1 / 2 ^ 53) \<le> Math_random r * real K
                    \<and> Math_random r * real K < real j + 1)"
      unfolding i_def using assms(8) by (intro randomIndex_sandwich [OF assms(10,11)])
  qed
  have g: "\<forall>p < K. fingerColors (fire r w) (finger_id (snap ! p))
                       = Some (if int p = i then winner_color else idle_color)"
  proof (intro allI impI)
    fix p assume "p < K"
    then have "paint winner_color i snap (finger_id (snap ! p))
               = Some (if int p = i then winner_color else idle_color)"
      unfolding K_def by (rule paint_nth [OF assms(7)])
    then show "fingerColors (fire r w) (finger_id (snap ! p))
               = Some (if int p = i then winner_color else idle_color)"
      unfolding m by (simp add: map_add_def)
  qed
  have h: "\<forall>k. k \<notin> finger_id ` set snap \<longrightarrow> fingerColors (fire r w) k = fingerColors w k"
  proof (intro allI impI)
    fix k assume "k \<notin> finger_id ` set snap"
    then have "k \<notin> dom (paint winner_color i snap)" by (simp add: paint_dom)
    then have "paint winner_color i snap k = None" by auto
    then show "fingerColors (fire r w) k = fingerColors w k"
      unfolding m by (simp add: map_add_def)
  qed
  have n: "fingers (fire r w) = fingers w" by (rule fire_fingers)
  show ?thesis
    by (intro conjI) (rule a(1) a(2) b c d e u g h n)+
qed

theorem outcome_designates_winner_witness:
  "\<not> selecting example_six
   \<and> map finger_id (filter active (fingers example_six))
       = [''1'', ''2'', ''3'', ''4'', ''5'', ''6'']
   \<and> map finger_id (fingers example_late) = [''7'']
   \<and> earliest (timers example_late) = Some (last (timers (selectRandomFinger example_six)))
   \<and> fresh example_six
   \<and> earliest (timers ((fire (7505999378950826 / 9007199254740992) ^^ 17)
                           (selectRandomFinger example_six)))
       = Some (last (timers (selectRandomFinger example_six)))
   \<and> randomIndex (7505999378950826 / 9007199254740992) 6 = 5
   \<and> winnerIndex (fire (7505999378950826 / 9007199254740992) example_late) = Some 5
   \<and> map (fingerColors (fire (7505999378950826 / 9007199254740992) example_late))
        [''1'', ''2'', ''3'', ''4'', ''5'', ''6'', ''7'']
       = [Some idle_color, Some idle_color, Some idle_color, Some idle_color, Some idle_color,
          Some winner_color, Some idle_color]
   \<and> cues (fire (7505999378950826 / 9007199254740992) example_late)
       = [TapSound, TapSound, WinnerSound]
   \<and> map finger_id (fingers (fire (7505999378950826 / 9007199254740992) example_late)) = [''7'']
   \<and> now (fire (7505999378950826 / 9007199254740992) example_late) = 3600"
proof -
  define r :: real where "r = 7505999378950826 / 9007199254740992"
  define s where "s = fire r example_late"
  have r: "0 \<le> r" "r < 1" by (simp_all add: r_def)
  have i: "randomIndex r 6 = 5" unfolding r_def by (rule randomIndex_example)
  have n: "\<not> selecting example_six" using example_six_fields by simp
  have a: "filter active (fingers example_six) \<noteq> []" using example_six_length by auto
  have d: "distinct (map finger_id (filter active (fingers example_six)))"
    by (simp only: example_six_ids) simp
  have k: "length (filter active (fingers example_six)) \<le> 2 ^ 32"
    by (simp add: example_six_length)
  have x: "nextTimerId example_six = 0" "now example_six = 0"
    using example_six_fields by simp_all
  have l: "last (timers (selectRandomFinger example_six))
           = \<lparr>timerId = 1, due = 3600, repeat = None,
              callback = Outcome (map new_finger example_six_touches) 0\<rparr>"
    unfolding pick_outcome_timer [OF n a]
    by (simp add: x example_six_length) (simp add: example_six_snap)
  have e: "earliest (timers example_late) = Some (last (timers (selectRandomFinger example_six)))"
    unfolding l using example_late_fields by simp
  note t = outcome_designates_winner [OF n a d k e r, folded s_def,
      unfolded example_six_length i x]
  have u: "earliest (timers ((fire r ^^ 17) (selectRandomFinger example_six)))
           = Some (last (timers (selectRandomFinger example_six)))"
    using outcome_designates_winner [OF n a d k e r] example_six_fresh
    by (simp add: example_six_ticks)
  have ids: "[''1'', ''2'', ''3'', ''4'', ''5'', ''6''] ! p
             = finger_id (filter active (fingers example_six) ! p)" if "p < 6" for p
    using nth_map [of p "filter active (fingers example_six)" finger_id] that
    by (simp only: example_six_ids example_six_length)
  have w: "winnerIndex s = Some 5" using t by simp
  have c: "fingerColors s ([''1'', ''2'', ''3'', ''4'', ''5'', ''6''] ! p)
           = Some (if int p = 5 then winner_color else idle_color)" if "p < 6" for p
    unfolding ids [OF that] using t that by simp
  have c7: "fingerColors s ''7'' = Some idle_color"
  proof -
    have "''7'' \<notin> set (map finger_id (filter active (fingers example_six)))"
      unfolding example_six_ids by simp
    then have "''7'' \<notin> finger_id ` set (filter active (fingers example_six))" by simp
    then have "fingerColors s ''7'' = fingerColors example_late ''7''" using t by simp
    then show ?thesis using example_late_fields by simp
  qed
  have cs: "map (fingerColors s) [''1'', ''2'', ''3'', ''4'', ''5'', ''6'', ''7'']
       = [Some idle_color, Some idle_color, Some idle_color, Some idle_color, Some idle_color,
          Some winner_color, Some idle_color]"
    using c [of 0] c [of 1] c [of 2] c [of 3] c [of 4] c [of 5] c7 by simp
  have q: "cues s = [TapSound, TapSound, WinnerSound]" using t example_late_fields by simp
  have f: "map finger_id (fingers s) = [''7'']"
    using t example_late_fields by (simp add: new_finger_def example_touch7_key)
  have f0: "map finger_id (fingers example_late) = [''7'']"
    using example_late_fields by (simp add: new_finger_def example_touch7_key)
  have m: "now s = 3600" using t example_late_fields by simp
  show ?thesis unfolding r_def [symmetric] s_def [symmetric]
    by (intro conjI) (rule n example_six_ids f0 e example_six_fresh u i w cs q f m)+
qed

section \<open>The blink\<close>

text \<open>
  Claim C7. In a session started with no timer pending, write \<open>s b\<close> for the state
  \<open>b\<close> timer runs after the outcome. In each of \<open>s 0\<close> to \<open>s 5\<close> exactly one blink
  timer is pending, with period 300, due 300 after the previous run. Runs 1 to 6 happen
  300 apart and set the winner's colour to the second winner colour on odd runs and to the
  first on even runs, leaving every other key of the colour map as the outcome left it.
  After the sixth run no blink timer is pending; the seventh run is the session end, it
  leaves the colour map alone, and no timer is left after it, so nothing runs any more.
\<close>

theorem blink_six_ticks:
  fixes w :: game_state and r :: real
  defines "snap \<equiv> filter active (fingers w)"
  defines "winner \<equiv> snap ! nat (randomIndex r (length snap))"
  defines "s \<equiv> (\<lambda>b. (fire r ^^ (ticks w + 1 + b)) (selectRandomFinger w))"
  assumes "fresh w" and "0 \<le> r" and "r < 1"
  shows "(\<forall>b < 6. filter (\<lambda>t. is_blink (callback t)) (timers (s b))
                  = [\<lparr>timerId = nextTimerId w + 2, due = now (s 0) + 300 * (b + 1),
                      repeat = Some 300, callback = BlinkTick winner b\<rparr>])
         \<and> (\<forall>b. 1 \<le> b \<and> b \<le> 6 \<longrightarrow>
               now (s b) = now (s 0) + 300 * b
               \<and> fingerColors (s b) (finger_id winner)
                   = Some (if even b then winner_color else winner_blink_color)
               \<and> (\<forall>k. k \<noteq> finger_id winner \<longrightarrow> fingerColors (s b) k = fingerColors (s 0) k))
         \<and> filter (\<lambda>t. is_blink (callback t)) (timers (s 6)) = []
         \<and> (\<forall>n. 7 \<le> n \<longrightarrow> s n = s 7 \<and> fingerColors (s n) = fingerColors (s 6)
                   \<and> timers (s n) = [])"
proof -
  have sb: "s b = blinking w r b" if "b \<le> 6" for b
    unfolding s_def using run_blinking [OF assms(4-6) that] .
  have s7: "s 7 = finished w r"
  proof -
    have "ticks w + 1 + 7 = ticks w + 8" by simp
    then show ?thesis unfolding s_def using run_finished [OF assms(4-6)] by (simp only:)
  qed
  have a: "\<forall>b < 6. filter (\<lambda>t. is_blink (callback t)) (timers (s b))
                  = [\<lparr>timerId = nextTimerId w + 2, due = now (s 0) + 300 * (b + 1),
                      repeat = Some 300, callback = BlinkTick winner b\<rparr>]"
  proof (intro allI impI)
    fix b :: nat assume b: "b < 6"
    then have "s b = blinking w r b" "s 0 = blinking w r 0" using sb by simp_all
    then show "filter (\<lambda>t. is_blink (callback t)) (timers (s b))
               = [\<lparr>timerId = nextTimerId w + 2, due = now (s 0) + 300 * (b + 1),
                   repeat = Some 300, callback = BlinkTick winner b\<rparr>]"
      using b by (simp add: blinking_timers blinking_fields Let_def winner_def snap_def)
  qed
  have b: "\<forall>b. 1 \<le> b \<and> b \<le> 6 \<longrightarrow>
               now (s b) = now (s 0) + 300 * b
               \<and> fingerColors (s b) (finger_id winner)
                   = Some (if even b then winner_color else winner_blink_color)
               \<and> (\<forall>k. k \<noteq> finger_id winner \<longrightarrow> fingerColors (s b) k = fingerColors (s 0) k)"
  proof (intro allI impI)
    fix b :: nat assume b: "1 \<le> b \<and> b \<le> 6"
    then have e: "s b = blinking w r b" "s 0 = blinking w r 0" using sb by simp_all
    have 1: "now (s b) = now (s 0) + 300 * b" by (simp add: e blinking_fields)
    have 2: "fingerColors (s b) (finger_id winner)
             = Some (if even b then winner_color else winner_blink_color)"
      unfolding e winner_def snap_def using b by (intro blinking_winner_color) simp
    have 3: "\<forall>k. k \<noteq> finger_id winner \<longrightarrow> fingerColors (s b) k = fingerColors (s 0) k"
      unfolding e winner_def snap_def using blinking_other_color by blast
    show "now (s b) = now (s 0) + 300 * b
          \<and> fingerColors (s b) (finger_id winner)
              = Some (if even b then winner_color else winner_blink_color)
          \<and> (\<forall>k. k \<noteq> finger_id winner \<longrightarrow> fingerColors (s b) k = fingerColors (s 0) k)"
      by (intro conjI) (rule 1 2 3)+
  qed
  have c: "filter (\<lambda>t. is_blink (callback t)) (timers (s 6)) = []"
    using sb [of 6] by (simp add: blinking_timers)
  have d: "\<forall>n. 7 \<le> n \<longrightarrow> s n = s 7 \<and> fingerColors (s n) = fingerColors (s 6) \<and> timers (s n) = []"
  proof (intro allI impI)
    fix n :: nat assume n: "7 \<le> n"
    have t: "timers (finished w r) = []" by (simp add: finished_def)
    have "ticks w + 1 + n = (n - 7) + (ticks w + 1 + 7)" using n by simp
    then have "s n = (fire r ^^ (n - 7)) (s 7)"
      unfolding s_def by (simp only: funpow_add o_apply)
    then have e: "s n = s 7" using fires_idle [OF t] by (simp add: s7)
    have "fingerColors (s 7) = fingerColors (s 6)"
      using sb [of 6] by (simp add: s7 finished_def)
    then show "s n = s 7 \<and> fingerColors (s n) = fingerColors (s 6) \<and> timers (s n) = []"
      using e t by (simp add: s7)
  qed
  show ?thesis by (intro conjI) (rule a b c d)+
qed

theorem blink_six_ticks_witness:
  "fresh example_board \<and> (0::real) \<le> 0 \<and> (0::real) < 1
   \<and> map (\<lambda>b. fingerColors ((fire 0 ^^ (3 + b)) (selectRandomFinger example_board)) ''1'')
        [1, 2, 3, 4, 5, 6]
      = [Some winner_blink_color, Some winner_color, Some winner_blink_color,
         Some winner_color, Some winner_blink_color, Some winner_color]
   \<and> now ((fire 0 ^^ (3 + 6)) (selectRandomFinger example_board))
      = now ((fire 0 ^^ 3) (selectRandomFinger example_board)) + 1800
   \<and> filter (\<lambda>t. is_blink (callback t))
        (timers ((fire 0 ^^ (3 + 6)) (selectRandomFinger example_board))) = []
   \<and> timers ((fire 0 ^^ (3 + 7)) (selectRandomFinger example_board)) = []"
proof -
  have r: "(0::real) \<le> 0" "(0::real) < 1" by simp_all
  note t = blink_six_ticks [OF example_board_fresh r, unfolded example_board_ticks example_winner]
  have i: "finger_id (new_finger example_touch) = ''1''"
    by (simp add: new_finger_def example_touch_key)
  note t2 = t [THEN conjunct2, THEN conjunct1, rule_format]
  note t3 = t [THEN conjunct2, THEN conjunct2, THEN conjunct1]
  note t4 = t [THEN conjunct2, THEN conjunct2, THEN conjunct2, rule_format]
  have c1: "now ((fire 0 ^^ (3 + b)) (selectRandomFinger example_board))
               = now ((fire 0 ^^ 3) (selectRandomFinger example_board)) + 300 * b
             \<and> fingerColors ((fire 0 ^^ (3 + b)) (selectRandomFinger example_board)) ''1''
               = Some (if even b then winner_color else winner_blink_color)"
    if "1 \<le> b \<and> b \<le> 6" for b
    using t2 [OF that] i by simp
  have e: "filter (\<lambda>t. is_blink (callback t))
             (timers ((fire 0 ^^ (3 + 6)) (selectRandomFinger example_board))) = []"
    using t3 by simp
  have f: "timers ((fire 0 ^^ (3 + 7)) (selectRandomFinger example_board)) = []"
    using t4 [of 7] by simp
  show ?thesis
    using example_board_fresh c1 [of 1] c1 [of 2] c1 [of 3] c1 [of 4] c1 [of 5] c1 [of 6] e f
    by simp
qed

section \<open>The end of a session\<close>




section \<open>The cycling phase\<close>

text \<open>
  Claim C3. The cycling interval runs every 200, each run moves the current index one
  step round the snapshot and colours the entry there with the highlight colour and the
  others idle, and the timeout due \<open>K\<close> times 200 times 3 after the start stops it
  (lemma \<open>cycling_runs\<close>). The tick that is due at that same instant runs only where the
  platform gives it precedence over the timeout. Where timers due together run in the
  order in which they were last scheduled, the timeout runs first and the phase is one
  tick short of three rounds (lemma \<open>request_order_first_index\<close>): on the board of two
  contacts the five ticks, at 200 to 1000, put the index at 1, 0, 1, 0, 1, the sixth timer
  run, at 1200, is the outcome, and the contact at index 0 has been highlighted twice
  only, at 400 and at 800, not three times.
\<close>

theorem cycling_phase_two_contacts:
  "map finger_id (filter active (fingers example_pair)) = [''1'', ''2'']
   \<and> map (\<lambda>j. now ((fire 0 ^^ j) (selectRandomFinger example_pair))) [0, 1, 2, 3, 4, 5, 6]
       = [0, 200, 400, 600, 800, 1000, 1200]
   \<and> map (\<lambda>j. currentIndex 0 ((fire 0 ^^ j) (selectRandomFinger example_pair)))
        [0, 1, 2, 3, 4, 5, 6]
       = [Some 0, Some 1, Some 0, Some 1, Some 0, Some 1, None]
   \<and> map (\<lambda>j. fingerColors ((fire 0 ^^ j) (selectRandomFinger example_pair)) ''1'')
        [0, 1, 2, 3, 4, 5, 6]
       = [Some idle_color, Some idle_color, Some highlight_color, Some idle_color,
          Some highlight_color, Some idle_color, Some winner_color]
   \<and> map (\<lambda>j. fingerColors ((fire 0 ^^ j) (selectRandomFinger example_pair)) ''2'')
        [0, 1, 2, 3, 4, 5, 6]
       = [Some idle_color, Some highlight_color, Some idle_color, Some highlight_color,
          Some idle_color, Some highlight_color, Some idle_color]
   \<and> cues ((fire 0 ^^ 5) (selectRandomFinger example_pair)) = [TapSound]
   \<and> cues ((fire 0 ^^ 6) (selectRandomFinger example_pair)) = [TapSound, WinnerSound]"
proof -
  let ?s = "\<lambda>j. (fire 0 ^^ j) (selectRandomFinger example_pair)"
  have s0: "?s 0 = cycling example_pair 0"
    using pick_fresh [OF example_pair_fresh] by simp
  have a0: "now (?s 0) = 0" "currentIndex 0 (?s 0) = Some 0"
    "fingerColors (?s 0) ''1'' = Some idle_color" "fingerColors (?s 0) ''2'' = Some idle_color"
    unfolding s0 by (simp_all add: cycling_def Let_def currentIndex_def example_pair_eq)
  have s5: "?s 5 = cycling example_pair 5"
    by (intro run_cycling example_pair_fresh) (simp add: example_pair_ticks)
  have s6: "?s 6 = blinking example_pair 0 0"
    using run_blinking [OF example_pair_fresh, of 0 0] by (simp add: example_pair_ticks)
  note d = example_pair_ids [THEN conjunct2, THEN conjunct2, THEN conjunct1]
  have a6: "now (?s 6) = 1200" "currentIndex 0 (?s 6) = None"
    "cues (?s 6) = [TapSound, WinnerSound]"
    unfolding s6
    by (simp_all add: blinking_def Let_def currentIndex_def example_pair_snap)
       (simp_all add: example_pair_eq)
  have c6: "fingerColors (?s 6) ''1'' = Some winner_color"
    "fingerColors (?s 6) ''2'' = Some idle_color"
    unfolding s6
    using blinking0_colors_snap [OF d, of 0 0] blinking0_colors_snap [OF d, of 1 0]
      example_pair_ids
    by (simp_all add: example_randomIndex)
  have c5: "cues (?s 5) = [TapSound]"
    unfolding s5 by (simp add: cycling_def Let_def example_pair_eq)
  have ids: "map finger_id (filter active (fingers example_pair)) = [''1'', ''2'']"
    by (simp add: example_pair_snap new_finger_def example_touch_key example_touch2_key)
  show ?thesis
    using ids a0 a6 c6 c5 example_pair_tick [of 1] example_pair_tick [of 2]
      example_pair_tick [of 3] example_pair_tick [of 4] example_pair_tick [of 5]
    by simp
qed

end
